theory Spec2Isabelle
  imports Complex_Main "HOL-Library.Product_Lexorder" "HOL-Library.Monad_Syntax"
    "HOL-Library.Sublist"
begin

section \<open>Text\<close>

text \<open>
  A Python \<^verbatim>\<open>str\<close> is a sequence of Unicode code points, so a text is a list of
  code points (integers) and \<open>length\<close> is Python's \<^verbatim>\<open>len\<close>.
  \<open>ustr\<close> turns an ASCII literal into such a text.
\<close>

type_synonym uchar = int

type_synonym ustring = "uchar list"

definition ustr :: "string \<Rightarrow> ustring" where
  "ustr s = map of_char s"

text \<open>
  \<open>is_space\<close> is the whitespace of \<^verbatim>\<open>str.strip\<close>, \<^verbatim>\<open>str.isspace\<close> and of
  \<^verbatim>\<open>\s\<close> in a \<^verbatim>\<open>str\<close> pattern: U+0009..U+000D, U+001C..U+0020, U+0085, U+00A0,
  U+1680, U+2000..U+200A, U+2028, U+2029, U+202F, U+205F, U+3000.
  Digits, letters and case are those of ASCII: a decimal digit or a cased letter of
  another script, which Python's \<^verbatim>\<open>\d\<close>, \<^verbatim>\<open>lower\<close>, \<^verbatim>\<open>isupper\<close> and
  \<^verbatim>\<open>isalpha\<close> also know, is an ordinary character here.
\<close>

definition is_space :: "uchar \<Rightarrow> bool" where
  "is_space c = ((9 \<le> c \<and> c \<le> 13) \<or> (28 \<le> c \<and> c \<le> 32) \<or> c = 133 \<or> c = 160 \<or>
     c = 5760 \<or> (8192 \<le> c \<and> c \<le> 8202) \<or> c = 8232 \<or> c = 8233 \<or> c = 8239 \<or>
     c = 8287 \<or> c = 12288)"

definition is_digit :: "uchar \<Rightarrow> bool" where
  "is_digit c = (48 \<le> c \<and> c \<le> 57)"

definition is_upper :: "uchar \<Rightarrow> bool" where
  "is_upper c = (65 \<le> c \<and> c \<le> 90)"

definition is_lower :: "uchar \<Rightarrow> bool" where
  "is_lower c = (97 \<le> c \<and> c \<le> 122)"

definition is_alpha :: "uchar \<Rightarrow> bool" where
  "is_alpha c = (is_upper c \<or> is_lower c)"

definition lower_char :: "uchar \<Rightarrow> uchar" where
  "lower_char c = (if is_upper c then c + 32 else c)"

definition lower :: "ustring \<Rightarrow> ustring" where
  "lower t = map lower_char t"

definition lstrip :: "ustring \<Rightarrow> ustring" where
  "lstrip t = dropWhile is_space t"

definition rstrip :: "ustring \<Rightarrow> ustring" where
  "rstrip t = rev (dropWhile is_space (rev t))"

definition strip :: "ustring \<Rightarrow> ustring" where
  "strip t = rstrip (lstrip t)"

text \<open>\<^verbatim>\<open>sep.join(parts)\<close>\<close>

fun join :: "ustring \<Rightarrow> ustring list \<Rightarrow> ustring" where
  "join sep [] = []"
| "join sep [t] = t"
| "join sep (t # u # ts) = t @ sep @ join sep (u # ts)"

text \<open>
  \<^verbatim>\<open>sub in t\<close>, \<^verbatim>\<open>t.startswith(p)\<close>, \<^verbatim>\<open>t.endswith(p)\<close>, \<^verbatim>\<open>t.rstrip(chars)\<close>,
  \<^verbatim>\<open>t.isupper()\<close> (some cased character, and none of them lower case) and
  \<^verbatim>\<open>t.replace(c, repl)\<close> for a single character \<open>c\<close>.
\<close>

fun contains :: "ustring \<Rightarrow> ustring \<Rightarrow> bool" where
  "contains sub [] = (sub = [])"
| "contains sub (c # t) = (take (length sub) (c # t) = sub \<or> contains sub t)"

definition startswith :: "ustring \<Rightarrow> ustring \<Rightarrow> bool" where
  "startswith t p = (take (length p) t = p)"

definition endswith :: "ustring \<Rightarrow> ustring \<Rightarrow> bool" where
  "endswith t p = (length p \<le> length t \<and> drop (length t - length p) t = p)"

definition rstrip_chars :: "uchar list \<Rightarrow> ustring \<Rightarrow> ustring" where
  "rstrip_chars cs t = rev (dropWhile (\<lambda>c. c \<in> set cs) (rev t))"

definition isupper :: "ustring \<Rightarrow> bool" where
  "isupper t = ((\<exists>c \<in> set t. is_upper c) \<and> (\<forall>c \<in> set t. \<not> is_lower c))"

definition replace_char :: "uchar \<Rightarrow> ustring \<Rightarrow> ustring \<Rightarrow> ustring" where
  "replace_char c repl t = concat (map (\<lambda>x. if x = c then repl else [x]) t)"

section \<open>Regular expressions\<close>

text \<open>
  The patterns of the program use character classes, literals, sequence, alternation, the
  anchors \<^verbatim>\<open>^\<close> and \<^verbatim>\<open>$\<close>, and repetition of a single character class, greedy
  (\<^verbatim>\<open>c*\<close>, \<^verbatim>\<open>c+\<close>) or lazy (\<^verbatim>\<open>.*?\<close>). \<open>rems r (i, t)\<close> is what a backtracking matcher
  can leave of \<open>t\<close>, a text that starts at position \<open>i\<close>, after matching \<open>r\<close> at its front:
  every way to match, in the order in which Python's matcher tries them, so that the head
  of the list is the match Python reports. \<^verbatim>\<open>$\<close> holds at the end and before a newline
  that ends the text; \<^verbatim>\<open>.\<close> is any character but the newline.
\<close>

datatype re =
    REps
  | RChr uchar
  | RCls "uchar \<Rightarrow> bool"
  | RStar "uchar \<Rightarrow> bool"
  | RLazy "uchar \<Rightarrow> bool"
  | RSeq re re
  | RAlt re re
  | RBol
  | REol

type_synonym mstate = "nat \<times> ustring"

fun star_greedy :: "(uchar \<Rightarrow> bool) \<Rightarrow> nat \<Rightarrow> ustring \<Rightarrow> mstate list" where
  "star_greedy p i [] = [(i, [])]"
| "star_greedy p i (c # t) = (if p c then star_greedy p (Suc i) t @ [(i, c # t)] else [(i, c # t)])"

fun star_lazy :: "(uchar \<Rightarrow> bool) \<Rightarrow> nat \<Rightarrow> ustring \<Rightarrow> mstate list" where
  "star_lazy p i [] = [(i, [])]"
| "star_lazy p i (c # t) = (if p c then (i, c # t) # star_lazy p (Suc i) t else [(i, c # t)])"

fun rems :: "re \<Rightarrow> mstate \<Rightarrow> mstate list" where
  "rems REps st = [st]"
| "rems (RChr a) (i, t) = (case t of [] \<Rightarrow> [] | c # u \<Rightarrow> if c = a then [(Suc i, u)] else [])"
| "rems (RCls p) (i, t) = (case t of [] \<Rightarrow> [] | c # u \<Rightarrow> if p c then [(Suc i, u)] else [])"
| "rems (RStar p) (i, t) = star_greedy p i t"
| "rems (RLazy p) (i, t) = star_lazy p i t"
| "rems (RSeq a b) st = concat (map (rems b) (rems a st))"
| "rems (RAlt a b) st = rems a st @ rems b st"
| "rems RBol (i, t) = (if i = 0 then [(i, t)] else [])"
| "rems REol (i, t) = (if t = [] \<or> t = [10] then [(i, t)] else [])"

text \<open>
  Sequences and alternatives of several patterns, a literal, a literal under
  \<^verbatim>\<open>re.IGNORECASE\<close> (ASCII case), and \<^verbatim>\<open>c+\<close>.
\<close>

fun seqs :: "re list \<Rightarrow> re" where
  "seqs [] = REps"
| "seqs [r] = r"
| "seqs (r # rs) = RSeq r (seqs rs)"

fun alts :: "re list \<Rightarrow> re" where
  "alts [] = RCls (\<lambda>c. False)"
| "alts [r] = r"
| "alts (r # rs) = RAlt r (alts rs)"

definition lit :: "string \<Rightarrow> re" where
  "lit s = seqs (map RChr (ustr s))"

definition lit_ci :: "string \<Rightarrow> re" where
  "lit_ci s = seqs (map (\<lambda>a. RCls (\<lambda>c. lower_char c = lower_char a)) (ustr s))"

definition plus :: "(uchar \<Rightarrow> bool) \<Rightarrow> re" where
  "plus p = RSeq (RCls p) (RStar p)"

definition any_char :: "uchar \<Rightarrow> bool" where
  "any_char c = (c \<noteq> 10)"

text \<open>
  \<^verbatim>\<open>re.match\<close> tries position 0 only; \<^verbatim>\<open>re.search\<close> tries every position from the
  left; \<^verbatim>\<open>re.sub\<close> replaces the matches from the left, each search starting where the
  last match ended (\<open>sub_from\<close> walks the text with its position \<open>i\<close>, and skips the \<open>k\<close>
  characters left of a match it has replaced). No pattern of the program matches the empty
  text, and \<open>sub_from\<close> passes over an empty match.
\<close>

definition re_match :: "re \<Rightarrow> ustring \<Rightarrow> bool" where
  "re_match r t = (rems r (0, t) \<noteq> [])"

fun search_from :: "re \<Rightarrow> nat \<Rightarrow> ustring \<Rightarrow> bool" where
  "search_from r i [] = (rems r (i, []) \<noteq> [])"
| "search_from r i (c # t) = (rems r (i, c # t) \<noteq> [] \<or> search_from r (Suc i) t)"

definition re_search :: "re \<Rightarrow> ustring \<Rightarrow> bool" where
  "re_search r t = search_from r 0 t"

fun sub_from :: "re \<Rightarrow> ustring \<Rightarrow> nat \<Rightarrow> nat \<Rightarrow> ustring \<Rightarrow> ustring" where
  "sub_from r repl i k [] = []"
| "sub_from r repl i (Suc k) (c # t) = sub_from r repl (Suc i) k t"
| "sub_from r repl i 0 (c # t) =
     (case rems r (i, c # t) of
        [] \<Rightarrow> c # sub_from r repl (Suc i) 0 t
      | (j, u) # ms \<Rightarrow>
          if i < j then repl @ sub_from r repl (Suc i) (j - Suc i) t
          else c # sub_from r repl (Suc i) 0 t)"

definition re_sub :: "re \<Rightarrow> ustring \<Rightarrow> ustring \<Rightarrow> ustring" where
  "re_sub r repl t = sub_from r repl 0 0 t"

section \<open>The text cleaner\<close>

text \<open>
  \<^verbatim>\<open>_clean_heading_text\<close>. Its patterns: \<^verbatim>\<open>\.{2,}.*$\<close>, \<^verbatim>\<open>\s+\d+\s*$\<close> and
  \<^verbatim>\<open>\s+\<close>. The replacements of \<^verbatim>\<open>unicode_fixes\<close> run in the order of the dictionary:
  U+2019 and U+2018 to the apostrophe, U+201C and U+201D to the double quote, U+2013 and
  U+2014 to themselves, U+2026 to three dots and U+00A0 to a space. The guard
  \<^verbatim>\<open>len(cleaned) < len(original) * 0.4\<close> is \<open>5 * len(cleaned) < 2 * len(original)\<close>.
  The function raises nothing on a text, so its handler has no branch here.
\<close>

definition re_leaders :: re where
  "re_leaders = seqs [RChr 46, RChr 46, RStar (\<lambda>c. c = 46), RStar any_char, REol]"

definition re_trailing_number :: re where
  "re_trailing_number = seqs [plus is_space, plus is_digit, RStar is_space, REol]"

definition re_spaces :: re where
  "re_spaces = plus is_space"

definition unicode_fixes :: "ustring \<Rightarrow> ustring" where
  "unicode_fixes t =
     replace_char 160 [32] (replace_char 8230 [46, 46, 46] (replace_char 8212 [8212]
       (replace_char 8211 [8211] (replace_char 8221 [34] (replace_char 8220 [34]
         (replace_char 8216 [39] (replace_char 8217 [39] t)))))))"

definition clean_heading_text :: "ustring \<Rightarrow> ustring" where
  "clean_heading_text t =
     (let original = strip t;
          cleaned1 = strip (re_sub re_leaders [] t);
          cleaned2 = strip (re_sub re_trailing_number [] cleaned1);
          cleaned3 = strip (re_sub re_spaces [32] cleaned2);
          cleaned4 = unicode_fixes cleaned3;
          cleaned5 = (if 5 * length cleaned4 < 2 * length original then original else cleaned4)
      in if endswith cleaned5 [32] then cleaned5 else cleaned5 @ [32])"

section \<open>Spans and the line merger\<close>

text \<open>
  What the layout extractor hands over for one glyph run: its text, size, font name,
  style flags and bounding box \<open>(x0, y0, x1, y1)\<close>. A page is its height, its width and its
  runs in the order of the nested loops over blocks, lines and spans (a block with no
  \<^verbatim>\<open>"lines"\<close> has none). Sizes and coordinates are Python floats; here they are
  rationals, and a difference or a quotient of two of them is the exact one.
\<close>

record raw_span =
  r_text :: ustring
  r_size :: rat
  r_font :: ustring
  r_flags :: nat
  r_bbox :: "rat \<times> rat \<times> rat \<times> rat"

record page =
  pg_height :: rat
  pg_width :: rat
  pg_spans :: "raw_span list"

text \<open>
  The dictionary \<^verbatim>\<open>extract_text_with_metadata\<close> builds for a run it keeps. The keys
  that nothing downstream reads (\<^verbatim>\<open>flags\<close>, \<^verbatim>\<open>width\<close>, \<^verbatim>\<open>height\<close>, \<^verbatim>\<open>bbox\<close>,
  the page sizes, \<^verbatim>\<open>relative_x\<close>, the counts and \<^verbatim>\<open>script_type\<close>) are left out.
\<close>

record span =
  s_text :: ustring
  s_size :: rat
  s_font :: ustring
  s_bold :: bool
  s_italic :: bool
  s_page :: int
  s_x :: rat
  s_y :: rat
  s_relative_y :: rat

text \<open>\<^verbatim>\<open>round(x, 1)\<close>: to one decimal, a tie going to the even digit.\<close>

definition round1 :: "rat \<Rightarrow> rat" where
  "round1 v = (let t = 10 * v; f = \<lfloor>t\<rfloor>; d = t - of_int f
     in of_int (if d < 1 / 2 then f else if 1 / 2 < d then f + 1
                else if even f then f else f + 1) / 10)"

definition keep_span :: "raw_span \<Rightarrow> bool" where
  "keep_span r = (let t = strip (r_text r) in t \<noteq> [] \<and> 1 < length t)"

definition mk_span :: "nat \<Rightarrow> page \<Rightarrow> raw_span \<Rightarrow> span" where
  "mk_span page_num pg r = (case r_bbox r of (x0, y0, x1, y1) \<Rightarrow>
     \<lparr> s_text = strip (r_text r),
       s_size = round1 (r_size r),
       s_font = r_font r,
       s_bold = bit (r_flags r) 4,
       s_italic = bit (r_flags r) 1,
       s_page = int page_num + 1,
       s_x = x0,
       s_y = y0,
       s_relative_y = (if 0 < pg_height pg then y0 / pg_height pg else 0) \<rparr>)"

definition page_spans :: "nat \<Rightarrow> page \<Rightarrow> span list" where
  "page_spans page_num pg = map (mk_span page_num pg) (filter keep_span (pg_spans pg))"

text \<open>\<^verbatim>\<open>page_spans.sort(key=lambda s: (s["y"], s["x"]))\<close>: a stable sort.\<close>

definition sort_spans :: "span list \<Rightarrow> span list" where
  "sort_spans spans = sort_key (\<lambda>s. (s_y s, s_x s)) spans"

text \<open>The test of line 81: does \<open>s\<close> extend the line whose last span is \<open>prev\<close>?\<close>

definition joins :: "rat \<Rightarrow> span \<Rightarrow> span \<Rightarrow> bool" where
  "joins y_threshold prev s = (let y_diff = \<bar>s_y s - s_y prev\<bar>
     in y_diff \<le> y_threshold \<or> (y_diff \<le> 15 \<and> s_size s = s_size prev))"

text \<open>
  The loop of lines 79 to 89 over \<^verbatim>\<open>page_spans[1:]\<close>, with \<^verbatim>\<open>current_line\<close> and
  \<^verbatim>\<open>lines\<close> as accumulators. It collects the groups; \<open>page_lines\<close> below merges each.
\<close>

fun group_spans :: "rat \<Rightarrow> span list \<Rightarrow> span list \<Rightarrow> span list list \<Rightarrow> span list list" where
  "group_spans thr [] current_line lines =
     (if current_line \<noteq> [] then lines @ [current_line] else lines)"
| "group_spans thr (s # rest) current_line lines =
     (if joins thr (last current_line) s
      then group_spans thr rest (current_line @ [s]) lines
      else group_spans thr rest [s]
             (if current_line \<noteq> [] then lines @ [current_line] else lines))"

definition page_groups :: "rat \<Rightarrow> span list \<Rightarrow> span list list" where
  "page_groups thr spans = (case sort_spans spans of
     [] \<Rightarrow> []
   | s0 # rest \<Rightarrow> group_spans thr rest [s0] [])"

text \<open>
  The position of the group that holds the \<open>i\<close>-th element of the concatenation of the
  groups: the merged line a span ends up in, the span named by its place in sorted order.
\<close>

fun line_of :: "'a list list \<Rightarrow> nat \<Rightarrow> nat option" where
  "line_of [] i = None"
| "line_of (g # gs) i =
     (if i < length g then Some 0 else map_option Suc (line_of gs (i - length g)))"

section \<open>Lines, headings and the extraction\<close>

text \<open>
  The heading levels and the document types are the strings \<^verbatim>\<open>"H1"\<close> to \<^verbatim>\<open>"H4"\<close> and
  \<^verbatim>\<open>"rfp_file3"\<close>, \<^verbatim>\<open>"form"\<close>, \<^verbatim>\<open>"invitation"\<close>, \<^verbatim>\<open>"academic"\<close>, \<^verbatim>\<open>"rfp"\<close>,
  \<^verbatim>\<open>"pathway"\<close>, \<^verbatim>\<open>"general"\<close> of the program.

  A line is a dictionary. The functions after the extraction take any list of
  dictionaries, and \<^verbatim>\<open>line["size"]\<close> raises \<^verbatim>\<open>KeyError\<close> when the key is missing: each
  key is an optional field, and a computation that may raise has an \<open>option\<close> result, with
  \<open>None\<close> for the exception. The keys kept are those that the functions modelled here read;
  \<^verbatim>\<open>sizes\<close>, \<^verbatim>\<open>fonts\<close>, \<^verbatim>\<open>italic\<close>, the position, the box, the page sizes,
  \<^verbatim>\<open>span_count\<close>, \<^verbatim>\<open>word_count\<close> and \<^verbatim>\<open>script_type\<close> are left out.
  An outline entry has a level, a text and a page.
\<close>

datatype level = H1 | H2 | H3 | H4

datatype doc_type = RfpFile3 | Form | Invitation | Academic | Rfp | Pathway | General

record line =
  l_text :: "ustring option"
  l_size :: "rat option"
  l_font :: "ustring option"
  l_bold :: "bool option"
  l_page :: "int option"
  l_relative_y :: "rat option"
  l_char_count :: "nat option"

record heading =
  h_level :: level
  h_text :: ustring
  h_page :: int

text \<open>
  \<^verbatim>\<open>max([x] + xs, key=f)\<close>: the first element of greatest key. \<^verbatim>\<open>_merge_line_spans\<close> reads
  \<^verbatim>\<open>spans[0]\<close>, which raises on an empty list. The bold flag of the line is
  \<^verbatim>\<open>bold_count > len(spans) / 2\<close>.
\<close>

definition first_max_by :: "('a \<Rightarrow> nat) \<Rightarrow> 'a \<Rightarrow> 'a list \<Rightarrow> 'a" where
  "first_max_by f x xs = fold (\<lambda>y best. if f best < f y then y else best) xs x"

fun merge_line_spans :: "span list \<Rightarrow> line option" where
  "merge_line_spans [] = None"
| "merge_line_spans (s0 # rest) =
     (let spans = s0 # rest;
          merged_text = strip (join [32] (map s_text spans));
          fonts = map s_font spans;
          bold_count = length (filter s_bold spans)
      in Some \<lparr> l_text = Some merged_text,
                l_size = Some (fold max (map s_size rest) (s_size s0)),
                l_font = Some (first_max_by (count_list fonts) (s_font s0) (map s_font rest)),
                l_bold = Some (length spans < 2 * bold_count),
                l_page = Some (s_page s0),
                l_relative_y = Some (s_relative_y s0),
                l_char_count = Some (length merged_text) \<rparr>)"

text \<open>
  The lines of one page, and \<^verbatim>\<open>extract_text_with_metadata\<close>: the lines of all pages in
  page order. The text source either raises (\<open>Unreadable\<close>, with the message of the
  exception) or yields the pages; the function passes every exception on. No group of
  \<open>page_groups\<close> is empty, so the merge never raises (\<open>extract_document_total\<close> below).
  \<^verbatim>\<open>doc_info\<close>, which nothing reads, is left out.
\<close>

definition page_lines :: "rat \<Rightarrow> nat \<Rightarrow> page \<Rightarrow> line list option" where
  "page_lines y_threshold page_num pg =
     those (map merge_line_spans (page_groups y_threshold (page_spans page_num pg)))"

datatype source = Unreadable ustring | Document "page list"

definition extract_text_with_metadata :: "source \<Rightarrow> rat \<Rightarrow> ustring + line list" where
  "extract_text_with_metadata src y_threshold = (case src of
     Unreadable e \<Rightarrow> Inl e
   | Document pages \<Rightarrow>
       (case those (map (\<lambda>(page_num, pg). page_lines y_threshold page_num pg)
                     (enumerate 0 pages)) of
          None \<Rightarrow> Inl (ustr ''list index out of range'')
        | Some all_content \<Rightarrow> Inr (concat all_content)))"

section \<open>The font thresholds\<close>

text \<open>
  \<^verbatim>\<open>Counter(xs)\<close> as a list of keys with their counts, in the order of first insertion, and
  \<^verbatim>\<open>most_common()\<close>: a stable sort by descending count. The thresholds are a dictionary
  from level to size, \<open>get_threshold\<close> its \<^verbatim>\<open>get\<close> with a default. The factors 1.3, 1.15 and
  1.05 of the fallback are the decimal numbers, and the products exact.
\<close>

fun counter_add :: "'a \<Rightarrow> ('a \<times> nat) list \<Rightarrow> ('a \<times> nat) list" where
  "counter_add x [] = [(x, 1)]"
| "counter_add x ((k, n) # m) = (if k = x then (k, Suc n) # m else (k, n) # counter_add x m)"

definition Counter :: "'a list \<Rightarrow> ('a \<times> nat) list" where
  "Counter xs = fold counter_add xs []"

definition most_common :: "('a \<times> nat) list \<Rightarrow> ('a \<times> nat) list" where
  "most_common m = sort_key (\<lambda>(k, n). - int n) m"

type_synonym thresholds = "(level \<times> rat) list"

definition get_threshold :: "thresholds \<Rightarrow> level \<Rightarrow> rat \<Rightarrow> rat" where
  "get_threshold font_analysis k dflt = (case map_of font_analysis k of None \<Rightarrow> dflt | Some v \<Rightarrow> v)"

definition significant_fonts :: "('a \<times> nat) list \<Rightarrow> 'a list" where
  "significant_fonts font_freq =
     map fst (filter (\<lambda>(v, count). 3 \<le> count) (most_common font_freq))"

definition calculate_font_thresholds :: "line list \<Rightarrow> thresholds option" where
  "calculate_font_thresholds lines = do {
     sizes \<leftarrow> those (map l_size lines);
     let font_sizes = filter (\<lambda>v. 0 < v) sizes;
     if font_sizes = [] then Some []
     else
       let font_freq = Counter font_sizes;
           significant = significant_fonts font_freq
       in if 3 \<le> length significant
          then Some [(H1, significant ! 0), (H2, significant ! 1), (H3, significant ! 2),
                     (H4, if 3 < length significant then significant ! 3
                          else significant ! 2)]
          else
            let avg_size = sum_list font_sizes / of_nat (length font_sizes)
            in Some [(H1, avg_size * (13 / 10)), (H2, avg_size * (115 / 100)),
                     (H3, avg_size * (105 / 100)), (H4, avg_size)]
   }"


section \<open>The document analysis\<close>

text \<open>
  The analysis is a dictionary too: \<^verbatim>\<open>{}\<close> is the record with no key. The keys
  \<^verbatim>\<open>structural_patterns\<close>, \<^verbatim>\<open>script_types\<close> and \<^verbatim>\<open>avg_char_count\<close>, which nothing
  reads and which cannot raise, are left out. \<^verbatim>\<open>int(0.75 * n)\<close> and \<^verbatim>\<open>int(0.90 * n)\<close> are
  \<open>3 * n div 4\<close> and \<open>9 * n div 10\<close>. \<open>analyze_body\<close> is the body of the \<^verbatim>\<open>try\<close> of
  \<^verbatim>\<open>analyze_document_structure\<close>, and the function itself adds the handler.
\<close>

record size_stats =
  st_mean :: rat
  st_median :: rat
  st_mode :: rat
  st_unique_sizes :: nat
  st_percentile_75 :: rat
  st_percentile_90 :: rat

record analysis =
  a_total_lines :: "nat option"
  a_pages :: "nat option"
  a_sizes :: "(rat \<times> nat) list option"
  a_fonts :: "(ustring \<times> nat) list option"
  a_bold_lines :: "nat option"
  a_avg_line_length :: "rat option"
  a_document_type :: "doc_type option"
  a_size_stats :: "size_stats option"

definition empty_analysis :: analysis where
  "empty_analysis = \<lparr> a_total_lines = None, a_pages = None, a_sizes = None, a_fonts = None,
     a_bold_lines = None, a_avg_line_length = None, a_document_type = None,
     a_size_stats = None \<rparr>"

definition any_keyword :: "string list \<Rightarrow> ustring \<Rightarrow> bool" where
  "any_keyword keywords t = list_ex (\<lambda>keyword. contains (ustr keyword) t) keywords"

definition detect_document_type :: "line list \<Rightarrow> doc_type option" where
  "detect_document_type lines = do {
     ts \<leftarrow> those (map l_text lines);
     let text_combined = join [32] (map lower ts);
     Some (if contains (ustr ''request for proposal'') text_combined
              \<or> contains (ustr ''ontario digital library'') text_combined
              \<or> contains (ustr ''rfp:'') text_combined then RfpFile3
           else if any_keyword [''application form'', ''signature'', ''date of birth'',
                     ''designation'', ''name of the government''] text_combined then Form
           else if any_keyword [''you're invited'', ''party'', ''hope to see you'',
                     ''trampoline park''] text_combined then Invitation
           else if any_keyword [''foundation level'', ''syllabus'', ''qualifications'',
                     ''learning objectives''] text_combined then Academic
           else if any_keyword [''business plan'', ''appendix''] text_combined then Rfp
           else if any_keyword [''pathway'', ''stem'', ''regular pathway'',
                     ''distinction pathway''] text_combined then Pathway
           else General)
   }"

definition median :: "rat list \<Rightarrow> rat" where
  "median sorted_sizes = (let n = length sorted_sizes in
     if odd n then sorted_sizes ! (n div 2)
     else (sorted_sizes ! (n div 2 - 1) + sorted_sizes ! (n div 2)) / 2)"

definition analyze_body :: "line list \<Rightarrow> analysis option" where
  "analyze_body lines = (if lines = [] then Some empty_analysis else do {
     pages \<leftarrow> those (map l_page lines);
     sizes \<leftarrow> those (map l_size lines);
     fonts \<leftarrow> those (map l_font lines);
     bolds \<leftarrow> those (map l_bold lines);
     ts \<leftarrow> those (map l_text lines);
     document_type \<leftarrow> detect_document_type lines;
     let n = length lines;
     let size_counter = Counter sizes;
     let sorted_sizes = sort sizes;
     Some \<lparr> a_total_lines = Some n,
            a_pages = Some (length (remdups pages)),
            a_sizes = Some size_counter,
            a_fonts = Some (Counter fonts),
            a_bold_lines = Some (length (filter id bolds)),
            a_avg_line_length = Some (of_nat (sum_list (map length ts)) / of_nat n),
            a_document_type = Some document_type,
            a_size_stats = Some \<lparr>
              st_mean = sum_list sizes / of_nat n,
              st_median = median sorted_sizes,
              st_mode = fst (first_max_by snd (hd size_counter) (tl size_counter)),
              st_unique_sizes = length (remdups sizes),
              st_percentile_75 = sorted_sizes ! (3 * n div 4),
              st_percentile_90 = sorted_sizes ! (9 * n div 10) \<rparr> \<rparr>
   })"

definition analyze_document_structure :: "line list \<Rightarrow> analysis" where
  "analyze_document_structure lines =
     (case analyze_body lines of None \<Rightarrow> empty_analysis | Some a \<Rightarrow> a)"

text \<open>
  \<^verbatim>\<open>_get_size_percentile\<close>: the share, in percent, of the sizes below \<open>sz\<close>. Nothing in its
  body raises on a table of sizes, so its handler has no branch here.
\<close>

definition get_size_percentile :: "rat \<Rightarrow> analysis \<Rightarrow> rat" where
  "get_size_percentile sz a = (case a_sizes a of
     None \<Rightarrow> 0
   | Some counts \<Rightarrow>
       (let all_sizes = sort (concat (map (\<lambda>(v, n). replicate n v) counts))
        in if all_sizes = [] then 0
           else of_nat (length (filter (\<lambda>v. v < sz) all_sizes)) / of_nat (length all_sizes) * 100))"

section \<open>The title extractors\<close>

text \<open>
  \<^verbatim>\<open>_is_numbered_pattern\<close> (\<^verbatim>\<open>^\d+[\.\)\:]\<close>), \<^verbatim>\<open>_is_universal_metadata\<close> with its nine
  patterns, searched in the lower-cased and stripped text, and \<^verbatim>\<open>_is_all_uppercase\<close>.
\<close>

definition re_numbered_pattern :: re where
  "re_numbered_pattern = seqs [RBol, plus is_digit, RCls (\<lambda>c. c = 46 \<or> c = 41 \<or> c = 58)]"

definition is_numbered_pattern :: "ustring \<Rightarrow> bool" where
  "is_numbered_pattern t = re_match re_numbered_pattern t"

definition metadata_patterns :: "re list" where
  "metadata_patterns =
     [seqs [lit ''version'', RStar is_space, plus (\<lambda>c. is_digit c \<or> c = 46)],
      lit ''draft'', lit ''confidential'', lit ''copyright'', RChr 169,
      seqs [RCls is_digit, RCls is_digit, RCls is_digit, RCls is_digit],
      seqs [lit ''page'', plus is_space, plus is_digit],
      seqs [lit ''date'', RStar is_space, RChr 58],
      seqs [lit ''author'', RStar is_space, RChr 58]]"

definition is_universal_metadata :: "ustring \<Rightarrow> bool" where
  "is_universal_metadata t =
     (let text_lower = strip (lower t) in list_ex (\<lambda>pattern. re_search pattern text_lower) metadata_patterns)"

definition is_all_uppercase :: "ustring \<Rightarrow> bool" where
  "is_all_uppercase t = (let alpha_chars = filter is_alpha t in
     if alpha_chars = [] then False else list_all is_upper alpha_chars)"

text \<open>
  The generic path of \<^verbatim>\<open>_extract_multilingual_title\<close>. \<open>first_page_lines k\<close> is
  \<^verbatim>\<open>[line for line in lines[:k] if line["page"] == 1]\<close>; \<open>title_candidates\<close> is the loop
  over these lines, \<open>i\<close> the index of \<^verbatim>\<open>enumerate\<close>, and \<open>title_score\<close> the score of one
  line. \<open>best_candidate\<close> is the first candidate after the sort by \<open>(-score, i)\<close>.
\<close>

definition has_size_stats :: "analysis \<Rightarrow> bool" where
  "has_size_stats a = (a_size_stats a \<noteq> None)"

definition first_page_lines :: "nat \<Rightarrow> line list \<Rightarrow> line list option" where
  "first_page_lines k lines = do {
     pages \<leftarrow> those (map l_page (take k lines));
     Some (filter (\<lambda>line. l_page line = Some 1) (take k lines))
   }"

definition char_count_of :: "line \<Rightarrow> ustring \<Rightarrow> nat" where
  "char_count_of line t = (case l_char_count line of None \<Rightarrow> length t | Some n \<Rightarrow> n)"

definition title_score :: "analysis \<Rightarrow> line \<Rightarrow> ustring \<Rightarrow> nat \<Rightarrow> int option" where
  "title_score a line t char_count = do {
     size_score \<leftarrow> (if has_size_stats a then do {
         sz \<leftarrow> l_size line;
         let size_percentile = get_size_percentile sz a;
         Some (if 95 \<le> size_percentile then 5 else if 85 \<le> size_percentile then 3 else 0)
       } else Some 0);
     bold \<leftarrow> l_bold line;
     relative_y \<leftarrow> l_relative_y line;
     Some (size_score + (if bold then 3 else 0)
           + (if relative_y < 15 / 100 then 4 else if relative_y < 3 / 10 then 2 else 0)
           + (if is_all_uppercase t \<and> char_count \<le> 150 then 3 else 0))
   }"

fun title_candidates :: "analysis \<Rightarrow> nat \<Rightarrow> line list \<Rightarrow> (ustring \<times> int \<times> nat) list option" where
  "title_candidates a i [] = Some []"
| "title_candidates a i (line # rest) = do {
     raw \<leftarrow> l_text line;
     let t = strip raw;
     let char_count = char_count_of line t;
     if 5 \<le> char_count \<and> char_count \<le> 200 \<and> \<not> is_numbered_pattern t
        \<and> \<not> is_universal_metadata t
     then do {
       score \<leftarrow> title_score a line t char_count;
       more_candidates \<leftarrow> title_candidates a (Suc i) rest;
       Some ((t, score, i) # more_candidates)
     }
     else title_candidates a (Suc i) rest
   }"

definition best_candidate :: "(ustring \<times> int \<times> nat) list \<Rightarrow> ustring" where
  "best_candidate candidates = fst (hd (sort_key (\<lambda>(t, score, i). (- score, i)) candidates))"

text \<open>\<^verbatim>\<open>_extract_academic_title\<close>: its scoring loop, and its fallback scan.\<close>

definition academic_title_keywords :: "string list" where
  "academic_title_keywords = [''overview'', ''foundation'', ''level'', ''extensions'',
     ''syllabus'', ''qualifications'', ''examination'', ''training'', ''course'']"

definition academic_score :: "analysis \<Rightarrow> line \<Rightarrow> ustring \<Rightarrow> nat \<Rightarrow> int option" where
  "academic_score a line t char_count = do {
     let text_lower = lower t;
     let keyword_matches =
       length (filter (\<lambda>keyword. contains (ustr keyword) text_lower) academic_title_keywords);
     let keyword_score = (if 2 \<le> keyword_matches then 10 else if 1 \<le> keyword_matches then 5 else 0);
     size_score \<leftarrow> (if has_size_stats a then do {
         sz \<leftarrow> l_size line;
         let size_percentile = get_size_percentile sz a;
         Some (if 90 \<le> size_percentile then 8 else if 75 \<le> size_percentile then 5 else 0)
       } else Some 0);
     bold \<leftarrow> l_bold line;
     relative_y \<leftarrow> l_relative_y line;
     Some (keyword_score + size_score + (if bold then 4 else 0)
           + (if relative_y < 2 / 10 then 6 else if relative_y < 4 / 10 then 3 else 0)
           + (if 15 \<le> char_count \<and> char_count \<le> 100 then 3 else 0)
           + (if any_keyword [''overview'', ''foundation level'', ''syllabus''] text_lower
              then 5 else 0))
   }"

fun academic_candidates :: "analysis \<Rightarrow> nat \<Rightarrow> line list \<Rightarrow> (ustring \<times> int \<times> nat) list option" where
  "academic_candidates a i [] = Some []"
| "academic_candidates a i (line # rest) = do {
     raw \<leftarrow> l_text line;
     let t = strip raw;
     let char_count = char_count_of line t;
     if char_count < 5 \<or> 200 < char_count \<or> is_numbered_pattern t \<or> is_universal_metadata t
     then academic_candidates a (Suc i) rest
     else do {
       score \<leftarrow> academic_score a line t char_count;
       more_candidates \<leftarrow> academic_candidates a (Suc i) rest;
       Some ((t, score, i) # more_candidates)
     }
   }"

fun academic_fallback :: "line list \<Rightarrow> ustring option" where
  "academic_fallback [] = Some (ustr ''Academic Document'')"
| "academic_fallback (line # rest) = do {
     raw \<leftarrow> l_text line;
     let t = strip raw;
     if (contains (ustr ''overview'') (lower t) \<or> contains (ustr ''foundation'') (lower t))
        \<and> 10 < length t
     then Some (clean_heading_text t)
     else academic_fallback rest
   }"

definition extract_academic_title :: "line list \<Rightarrow> analysis \<Rightarrow> ustring option" where
  "extract_academic_title lines a = do {
     fpl \<leftarrow> first_page_lines 30 lines;
     candidates \<leftarrow> academic_candidates a 0 fpl;
     if candidates \<noteq> [] then Some (clean_heading_text (best_candidate candidates))
     else academic_fallback fpl
   }"

text \<open>
  \<^verbatim>\<open>_extract_file3_title\<close>: every branch of its chain of tests appends the text, so the
  chain is one test, \<open>has_file3_marker\<close>. \<^verbatim>\<open>_clean_title_file3\<close> follows.
\<close>

definition has_file3_marker :: "ustring \<Rightarrow> bool" where
  "has_file3_marker t = (contains (ustr ''rfp:'') (lower t)
     \<or> contains (ustr ''request for proposal'') (lower t)
     \<or> contains (ustr ''to present a proposal'') (lower t)
     \<or> contains (ustr ''developing the business plan'') (lower t)
     \<or> contains (ustr ''ontario digital library'') (lower t))"

fun file3_title_parts :: "line list \<Rightarrow> ustring list option" where
  "file3_title_parts [] = Some []"
| "file3_title_parts (line # rest) = do {
     raw \<leftarrow> l_text line;
     let t = strip raw;
     parts \<leftarrow> file3_title_parts rest;
     Some (if has_file3_marker t then t # parts else parts)
   }"

definition re_file3_corruption :: re where
  "re_file3_corruption = seqs [lit_ci ''RFP:'', RStar is_space, lit_ci ''R'', RStar is_space,
     lit_ci ''RFP:'', RStar is_space, lit_ci ''R'', RLazy any_char, lit_ci ''quest'',
     plus is_space, lit_ci ''f'', RLazy any_char, lit_ci ''r'', plus is_space, lit_ci ''Pr'',
     RLazy any_char, lit_ci ''oposal'']"

definition clean_title_file3 :: "ustring \<Rightarrow> ustring" where
  "clean_title_file3 t =
     (let t1 = re_sub re_spaces [32] (strip t);
          t2 = re_sub re_file3_corruption (ustr ''RFP:Request for Proposal'') t1;
          t3 = (if startswith t2 (ustr ''RFP:'') then t2
                else ustr ''RFP:Request for Proposal '' @ t2)
      in if endswith t3 [32, 32] then t3 else rstrip t3 @ [32, 32])"

definition extract_file3_title :: "line list \<Rightarrow> ustring option" where
  "extract_file3_title lines = do {
     title_parts \<leftarrow> file3_title_parts (take 30 lines);
     Some (if title_parts \<noteq> [] then clean_title_file3 (join [32] title_parts)
           else ustr ''RFP:Request for Proposal To Present a Proposal for Developing the Business Plan for the Ontario Digital Library  '')
   }"

text \<open>
  \<open>title_body\<close> is the body of the \<^verbatim>\<open>try\<close> of \<^verbatim>\<open>_extract_multilingual_title\<close>; the
  function adds the handler, which returns \<open>Untitled Document\<close>.
\<close>

definition title_body :: "line list \<Rightarrow> analysis \<Rightarrow> doc_type \<Rightarrow> ustring option" where
  "title_body lines a dt =
     (if lines = [] then Some (ustr ''Untitled Document'')
      else if dt = RfpFile3 then extract_file3_title lines
      else if dt = Academic then extract_academic_title lines a
      else do {
        fpl \<leftarrow> first_page_lines 50 lines;
        candidates \<leftarrow> title_candidates a 0 fpl;
        Some (if candidates \<noteq> [] then clean_heading_text (best_candidate candidates)
              else ustr ''Untitled Document'')
      })"

definition extract_multilingual_title :: "line list \<Rightarrow> analysis \<Rightarrow> doc_type \<Rightarrow> ustring" where
  "extract_multilingual_title lines a dt =
     (case title_body lines a dt of None \<Rightarrow> ustr ''Untitled Document'' | Some title \<Rightarrow> title)"

section \<open>The heading classifiers\<close>

text \<open>
  The patterns \<^verbatim>\<open>^\d+\.\s+[A-Z]\<close>, \<^verbatim>\<open>^\d+\.\d+\s+[A-Z]\<close>,
  \<^verbatim>\<open>^(revision\s+history|table\s+of\s+contents|acknowledgements)$\<close>,
  \<^verbatim>\<open>^(summary|background|timeline|milestones)$\<close> and \<^verbatim>\<open>^appendix\s+[a-z]\<close>, and the
  classifiers. A classifier returns a level or \<^verbatim>\<open>None\<close> (the inner \<open>option\<close>), or raises
  (the outer one). \<^verbatim>\<open>and\<close> and \<^verbatim>\<open>or\<close> read a key only when the tests before it let them.
\<close>

definition re_numbered_heading :: re where
  "re_numbered_heading = seqs [RBol, plus is_digit, RChr 46, plus is_space, RCls is_upper]"

definition re_subnumbered_heading :: re where
  "re_subnumbered_heading =
     seqs [RBol, plus is_digit, RChr 46, plus is_digit, plus is_space, RCls is_upper]"

definition re_academic_fixed :: re where
  "re_academic_fixed = seqs [RBol,
     alts [seqs [lit ''revision'', plus is_space, lit ''history''],
           seqs [lit ''table'', plus is_space, lit ''of'', plus is_space, lit ''contents''],
           lit ''acknowledgements''],
     REol]"

definition re_rfp_fixed :: re where
  "re_rfp_fixed = seqs [RBol,
     alts [lit ''summary'', lit ''background'', lit ''timeline'', lit ''milestones''], REol]"

definition re_appendix :: re where
  "re_appendix = seqs [RBol, lit ''appendix'', plus is_space, RCls is_lower]"

definition classify_academic_main_heading ::
    "ustring \<Rightarrow> line \<Rightarrow> thresholds \<Rightarrow> level option option" where
  "classify_academic_main_heading t line font_analysis =
     (if re_search re_academic_fixed (lower t) then Some (Some H1)
      else if re_match re_numbered_heading t then Some (Some H1)
      else if re_match re_subnumbered_heading t then Some (Some H2)
      else do {
        sz \<leftarrow> l_size line;
        h1 \<leftarrow> (if get_threshold font_analysis H1 0 \<le> sz
                then map_option (\<lambda>bold. bold \<and> length t \<le> 80) (l_bold line) else Some False);
        if h1 then Some (Some H1)
        else do {
          h2 \<leftarrow> (if get_threshold font_analysis H2 0 \<le> sz
                  then map_option (\<lambda>bold. bold \<and> length t \<le> 60) (l_bold line) else Some False);
          Some (if h2 then Some H2 else None)
        }
      })"

definition classify_rfp_main_heading ::
    "ustring \<Rightarrow> line \<Rightarrow> thresholds \<Rightarrow> level option option" where
  "classify_rfp_main_heading t line font_analysis =
     (if re_search re_rfp_fixed (rstrip_chars [58] (lower t)) then Some (Some H2)
      else if re_search re_appendix (lower t) then Some (Some H2)
      else if re_match re_numbered_heading t then Some (Some H3)
      else do {
        colon \<leftarrow> (if endswith t [58] \<and> 8 \<le> length t \<and> length t \<le> 50 then l_bold line
                   else Some False);
        if colon then Some (Some H3)
        else do {
          sz \<leftarrow> l_size line;
          if get_threshold font_analysis H1 0 \<le> sz \<and> length t \<le> 100 then Some (Some H1)
          else do {
            h2 \<leftarrow> (if get_threshold font_analysis H2 0 \<le> sz then l_bold line else Some False);
            Some (if h2 then Some H2 else None)
          }
        }
      })"

definition classify_general_main_heading ::
    "ustring \<Rightarrow> line \<Rightarrow> thresholds \<Rightarrow> level option option" where
  "classify_general_main_heading t line font_analysis =
     (if re_match re_numbered_heading t then Some (Some H1)
      else if re_match re_subnumbered_heading t then Some (Some H2)
      else do {
        bold \<leftarrow> l_bold line;
        if bold then do {
          sz \<leftarrow> l_size line;
          Some (if get_threshold font_analysis H2 0 \<le> sz \<and> length t \<le> 80 then Some H2 else None)
        } else Some None
      })"

text \<open>
  The phrase tables of \<^verbatim>\<open>_classify_file3_heading\<close>. A phrase with an apostrophe stands in
  the table twice, with \<^verbatim>\<open>'\<close> and with U+2019.
\<close>

definition apostrophes :: "string \<Rightarrow> string \<Rightarrow> ustring list" where
  "apostrophes pre post = [ustr pre @ [39] @ ustr post, ustr pre @ [8217] @ ustr post]"

definition file3_h1_patterns :: "ustring list" where
  "file3_h1_patterns =
     apostrophes ''ontario'' ''s digital library''
     @ apostrophes ''a critical component for implementing ontario''
                   ''s road map to prosperity strategy''"

definition file3_h2_patterns :: "ustring list" where
  "file3_h2_patterns =
     map ustr [''summary'', ''background'', ''the business plan to be developed'',
       ''approach and specific proposal requirements'', ''evaluation and awarding of contract'',
       ''appendix a: odl envisioned phases & funding'',
       ''appendix a: odl envisioned phases &amp; funding'',
       ''appendix b: odl steering committee terms of reference'']
     @ apostrophes ''appendix c: odl'' ''s envisioned electronic resources''"

definition file3_h3_patterns :: "ustring list" where
  "file3_h3_patterns =
     map ustr [''timeline:'', ''equitable access for all ontarians:'',
       ''shared decision-making and accountability:'', ''shared governance structure:'',
       ''shared funding:'', ''local points of entry:'', ''access:'', ''guidance and advice:'',
       ''training:'', ''provincial purchasing & licensing:'',
       ''provincial purchasing &amp; licensing:'', ''technological support:'',
       ''what could the odl really mean?'', ''milestones'', ''phase i: business planning'',
       ''phase ii: implementing and transitioning'', ''phase iii: operating and growing the odl'',
       ''1. preamble'', ''2. terms of reference'', ''3. membership'',
       ''4. appointment criteria and process'', ''5. term'', ''6. chair'', ''7. meetings'',
       ''8. lines of accountability and communication'',
       ''9. financial and administrative policies'']"

definition file3_h4_patterns :: "ustring list" where
  "file3_h4_patterns =
     map ustr [''for each ontario citizen it could mean:'',
       ''for each ontario student it could mean:'', ''for each ontario library it could mean:'',
       ''for each ontario government it could mean:'']"

definition any_pattern :: "ustring list \<Rightarrow> ustring \<Rightarrow> bool" where
  "any_pattern patterns t = list_ex (\<lambda>pattern. contains pattern t) patterns"

definition classify_file3_heading ::
    "ustring \<Rightarrow> line \<Rightarrow> thresholds \<Rightarrow> level option option" where
  "classify_file3_heading t line font_analysis =
     (let text_lower = strip (lower t) in
      if any_pattern file3_h1_patterns text_lower then Some (Some H1)
      else if any_pattern file3_h2_patterns text_lower then Some (Some H2)
      else if any_pattern file3_h3_patterns text_lower then Some (Some H3)
      else if any_pattern file3_h4_patterns text_lower then Some (Some H4)
      else do {
        colon \<leftarrow> (if endswith t [58] \<and> 5 \<le> length t \<and> length t \<le> 60
                   then do {
                     bold \<leftarrow> l_bold line;
                     if bold then Some True
                     else map_option (\<lambda>sz. get_threshold font_analysis H3 12 \<le> sz) (l_size line)
                   }
                   else Some False);
        if colon then Some (Some H3)
        else if re_match re_numbered_heading t
        then map_option (\<lambda>p. if 10 \<le> p then Some H3 else None) (l_page line)
        else Some None
      })"

text \<open>
  The extractors of the rfp_file3, academic, rfp and general genres run the same loop,
  \<open>heading_loop\<close>, with their own least length and classifier; those of the invitation and
  pathway genres run \<open>pick_loop\<close>, which tests the text first and \<^verbatim>\<open>seen\<close> second.
  \<^verbatim>\<open>seen\<close> is a list here.
\<close>

fun heading_loop ::
    "nat \<Rightarrow> (ustring \<Rightarrow> line \<Rightarrow> level option option) \<Rightarrow> line list \<Rightarrow> ustring list \<Rightarrow>
     heading list \<Rightarrow> heading list option" where
  "heading_loop min_len classify [] seen headings = Some headings"
| "heading_loop min_len classify (line # rest) seen headings = do {
     raw \<leftarrow> l_text line;
     let t = strip raw;
     if t \<in> set seen \<or> length t < min_len
     then heading_loop min_len classify rest seen headings
     else do {
       level \<leftarrow> classify t line;
       case level of
         None \<Rightarrow> heading_loop min_len classify rest seen headings
       | Some lv \<Rightarrow> do {
           p \<leftarrow> l_page line;
           heading_loop min_len classify rest (t # seen)
             (headings @ [\<lparr> h_level = lv, h_text = clean_heading_text t, h_page = p - 1 \<rparr>])
         }
     }
   }"

fun pick_loop ::
    "(ustring \<Rightarrow> bool) \<Rightarrow> line list \<Rightarrow> ustring list \<Rightarrow> heading list \<Rightarrow> heading list option" where
  "pick_loop wanted [] seen headings = Some headings"
| "pick_loop wanted (line # rest) seen headings = do {
     raw \<leftarrow> l_text line;
     let t = strip raw;
     if wanted t \<and> t \<notin> set seen
     then do {
       p \<leftarrow> l_page line;
       pick_loop wanted rest (t # seen)
         (headings @ [\<lparr> h_level = H1, h_text = clean_heading_text t, h_page = p - 1 \<rparr>])
     }
     else pick_loop wanted rest seen headings
   }"

definition extract_file3_specific_headings :: "line list \<Rightarrow> heading list option" where
  "extract_file3_specific_headings lines = do {
     font_analysis \<leftarrow> calculate_font_thresholds lines;
     headings \<leftarrow> heading_loop 3 (\<lambda>t line. classify_file3_heading t line font_analysis) lines [] [];
     Some (sort_key h_page headings)
   }"

definition extract_invitation_headings :: "line list \<Rightarrow> heading list option" where
  "extract_invitation_headings lines = do {
     headings \<leftarrow> pick_loop (\<lambda>t. lower t \<in> set (map ustr [''pathway options'', ''hope to see you there''])
                                \<or> (isupper t \<and> 10 \<le> length t \<and> length t \<le> 50)) lines [] [];
     Some (take 2 headings)
   }"

definition extract_pathway_headings :: "line list \<Rightarrow> heading list option" where
  "extract_pathway_headings lines =
     pick_loop (\<lambda>t. any_keyword [''pathway options'', ''regular pathway'', ''distinction pathway'']
                       (lower t)) lines [] []"

definition extract_academic_main_headings :: "line list \<Rightarrow> heading list option" where
  "extract_academic_main_headings lines = do {
     font_analysis \<leftarrow> calculate_font_thresholds lines;
     headings \<leftarrow> heading_loop 5 (\<lambda>t line. classify_academic_main_heading t line font_analysis) lines [] [];
     Some (take 18 (sort_key h_page headings))
   }"

definition extract_rfp_main_headings :: "line list \<Rightarrow> heading list option" where
  "extract_rfp_main_headings lines = do {
     font_analysis \<leftarrow> calculate_font_thresholds lines;
     headings \<leftarrow> heading_loop 5 (\<lambda>t line. classify_rfp_main_heading t line font_analysis) lines [] [];
     Some (take 35 (sort_key h_page headings))
   }"

definition extract_general_main_headings :: "line list \<Rightarrow> heading list option" where
  "extract_general_main_headings lines = do {
     font_analysis \<leftarrow> calculate_font_thresholds lines;
     headings \<leftarrow> heading_loop 5 (\<lambda>t line. classify_general_main_heading t line font_analysis) lines [] [];
     Some (take 25 (sort_key h_page headings))
   }"

text \<open>
  \<^verbatim>\<open>extract_main_headings_only\<close>: \<open>headings_body\<close> is the chain over the document type,
  inside the \<^verbatim>\<open>try\<close>; a document type that is none of the seven strings takes the last
  branch, as \<open>General\<close> does. The title is computed first and cannot raise. The handler
  returns \<open>Error Processing Document\<close> and no heading.
\<close>

definition headings_body :: "line list \<Rightarrow> doc_type \<Rightarrow> heading list option" where
  "headings_body lines dt = (case dt of
     Form \<Rightarrow> Some []
   | Invitation \<Rightarrow> extract_invitation_headings lines
   | Academic \<Rightarrow> extract_academic_main_headings lines
   | RfpFile3 \<Rightarrow> extract_file3_specific_headings lines
   | Rfp \<Rightarrow> extract_rfp_main_headings lines
   | Pathway \<Rightarrow> extract_pathway_headings lines
   | General \<Rightarrow> extract_general_main_headings lines)"

definition extract_main_headings_only :: "line list \<Rightarrow> analysis \<Rightarrow> ustring \<times> heading list" where
  "extract_main_headings_only lines doc_analysis =
     (let dt = (case a_document_type doc_analysis of None \<Rightarrow> General | Some d \<Rightarrow> d);
          title = extract_multilingual_title lines doc_analysis dt
      in case headings_body lines dt of
           None \<Rightarrow> (ustr ''Error Processing Document'', [])
         | Some headings \<Rightarrow> (title, headings))"

section \<open>The pipeline\<close>

text \<open>
  The result dictionary: \<^verbatim>\<open>error\<close> and \<^verbatim>\<open>file\<close> are present only in the result of the
  handler. \<open>extract_outline_robust\<close> takes the path and what the text source yields for it.
\<close>

record outline_result =
  res_title :: ustring
  res_outline :: "heading list"
  res_error :: "ustring option"
  res_file :: "ustring option"

definition extract_outline_robust :: "ustring \<Rightarrow> source \<Rightarrow> outline_result" where
  "extract_outline_robust pdf_path src = (case extract_text_with_metadata src 5 of
     Inl e \<Rightarrow> \<lparr> res_title = ustr ''Error Processing Document'', res_outline = [],
                res_error = Some e, res_file = Some pdf_path \<rparr>
   | Inr lines \<Rightarrow>
       if lines = []
       then \<lparr> res_title = ustr ''Empty Document'', res_outline = [],
              res_error = None, res_file = None \<rparr>
       else (let doc_analysis = analyze_document_structure lines;
                 (title, outline) = extract_main_headings_only lines doc_analysis
             in \<lparr> res_title = title, res_outline = outline,
                   res_error = None, res_file = None \<rparr>))"


section \<open>Example data\<close>

text \<open>A line with every key: text, size, bold flag and page as given.\<close>

definition mk_line :: "string \<Rightarrow> rat \<Rightarrow> bool \<Rightarrow> int \<Rightarrow> line" where
  "mk_line t sz b p = \<lparr> l_text = Some (ustr t), l_size = Some sz, l_font = Some (ustr ''F''),
     l_bold = Some b, l_page = Some p, l_relative_y = Some (1 / 2),
     l_char_count = Some (length t) \<rparr>"

text \<open>A span for the examples: only its vertical position and its size vary.\<close>

definition sample_span :: "rat \<Rightarrow> rat \<Rightarrow> span" where
  "sample_span y sz = \<lparr> s_text = ustr ''ab'', s_size = sz, s_font = ustr ''F'',
     s_bold = False, s_italic = False, s_page = 1, s_x = 0, s_y = y, s_relative_y = 0 \<rparr>"

text \<open>The three lines of the scenario of C7, on page 1.\<close>

definition c7_lines :: "line list" where
  "c7_lines = [mk_line ''1. Introduction'' 18 True 1, mk_line ''Some body text.'' 11 False 1,
               mk_line ''1.1 Background'' 14 False 1]"

text \<open>A run of size 12 in a regular font, its box starting at height \<open>y\<close>.\<close>

definition sample_raw :: "string \<Rightarrow> rat \<Rightarrow> raw_span" where
  "sample_raw t y = \<lparr> r_text = ustr t, r_size = 12, r_font = ustr ''F'', r_flags = 0,
     r_bbox = (72, y, 300, y + 12) \<rparr>"

text \<open>A one-page document with two numbered headings that differ by a trailing page number.\<close>

definition c10_document :: source where
  "c10_document = Document [\<lparr> pg_height = 800, pg_width = 600,
     pg_spans = [sample_raw ''1. Overview'' 100, sample_raw ''1. Overview 7'' 300] \<rparr>]"

text \<open>A two-page document with no usable run: one of a single character, one of blanks.\<close>

definition blank_document :: source where
  "blank_document = Document
     [\<lparr> pg_height = 800, pg_width = 600,
        pg_spans = [sample_raw '' x '' 100, sample_raw ''  '' 300] \<rparr>,
      \<lparr> pg_height = 800, pg_width = 600, pg_spans = [] \<rparr>]"


text \<open>Two lines of a first page: a page footer and a heading.\<close>

definition c8_lines :: "line list" where
  "c8_lines = [mk_line ''Page 3'' 12 True 1, mk_line ''Hello World'' 12 False 1]"


section \<open>Notions of the statements\<close>

text \<open>
  An outline entry comes from a line when its text is the cleaned, stripped text of the line
  and its page is the page of the line less one. \<open>pre_clean\<close> is the text of a line as the
  heading loops see it, before cleaning.
\<close>

definition heading_of_line :: "line \<Rightarrow> heading \<Rightarrow> bool" where
  "heading_of_line l h = (\<exists>raw p. l_text l = Some raw \<and> l_page l = Some p
     \<and> h_text h = clean_heading_text (strip raw) \<and> h_page h = p - 1)"

definition pre_clean :: "line \<Rightarrow> ustring option" where
  "pre_clean l = map_option strip (l_text l)"





section \<open>Properties of the line merger\<close>

lemma map_option_Suc_not_zero:
  "map_option Suc v \<noteq> Some 0" "Some 0 \<noteq> map_option Suc v"
  by (cases v; simp)+

lemma group_spans_lines:
  "group_spans thr rest cur lines = lines @ group_spans thr rest cur []"
proof (induction rest arbitrary: cur lines)
  case Nil
  show ?case by simp
next
  case (Cons s rest)
  show ?case
  proof (cases "joins thr (last cur) s")
    case True
    then show ?thesis using Cons.IH [of "cur @ [s]" lines] by simp
  next
    case False
    then show ?thesis
      using Cons.IH [of "[s]" "lines @ [cur]"] Cons.IH [of "[s]" lines]
        Cons.IH [of "[s]" "[cur]"]
      by simp
  qed
qed

lemma group_spans_step:
  "cur \<noteq> [] \<Longrightarrow> group_spans thr (s # rest) cur [] =
     (if joins thr (last cur) s then group_spans thr rest (cur @ [s]) []
      else cur # group_spans thr rest [s] [])"
  using group_spans_lines [of thr rest "[s]" "[cur]"] by simp

lemma concat_group_spans:
  "cur \<noteq> [] \<Longrightarrow> concat (group_spans thr rest cur []) = cur @ rest"
proof (induction rest arbitrary: cur)
  case Nil
  then show ?case by simp
next
  case (Cons s rest)
  then show ?case by (simp add: group_spans_step del: group_spans.simps)
qed

lemma line_of_group_spans_adjacent:
  "cur \<noteq> [] \<Longrightarrow> Suc i < length (cur @ rest) \<Longrightarrow>
     (line_of (group_spans thr rest cur []) i = line_of (group_spans thr rest cur []) (Suc i))
       = (Suc i < length cur \<or> joins thr ((cur @ rest) ! i) ((cur @ rest) ! Suc i))"
proof (induction rest arbitrary: cur i)
  case Nil
  then show ?case by simp
next
  case (Cons s rest)
  let ?n = "length cur"
  show ?case
  proof (cases "joins thr (last cur) s")
    case True
    have step: "group_spans thr (s # rest) cur [] = group_spans thr rest (cur @ [s]) []"
      using True Cons.prems(1) by (simp add: group_spans_step del: group_spans.simps)
    have ih: "(line_of (group_spans thr rest (cur @ [s]) []) i
                = line_of (group_spans thr rest (cur @ [s]) []) (Suc i))
          = (Suc i < length (cur @ [s])
              \<or> joins thr (((cur @ [s]) @ rest) ! i) (((cur @ [s]) @ rest) ! Suc i))"
      using Cons.IH [of "cur @ [s]" i] Cons.prems(2) by simp
    have at_border: "joins thr ((cur @ s # rest) ! i) ((cur @ s # rest) ! Suc i)"
      if "Suc i = ?n"
    proof -
      have "(cur @ s # rest) ! i = last cur"
        using that [symmetric] Cons.prems(1) by (simp add: nth_append last_conv_nth)
      moreover have "(cur @ s # rest) ! Suc i = s"
        using that [symmetric] by (simp add: nth_append)
      ultimately show ?thesis using True by simp
    qed
    show ?thesis
      unfolding step ih using at_border by (auto simp: less_Suc_eq)
  next
    case False
    have step: "group_spans thr (s # rest) cur [] = cur # group_spans thr rest [s] []"
      using False Cons.prems(1) by (simp add: group_spans_step del: group_spans.simps)
    consider (inside) "Suc i < ?n" | (border) "Suc i = ?n" | (after) "?n \<le> i"
      by linarith
    then show ?thesis
    proof cases
      case inside
      then show ?thesis unfolding step by simp
    next
      case border
      have "(cur @ s # rest) ! i = last cur"
        using border [symmetric] Cons.prems(1) by (simp add: nth_append last_conv_nth)
      moreover have "(cur @ s # rest) ! Suc i = s"
        using border [symmetric] by (simp add: nth_append)
      ultimately show ?thesis
        unfolding step using border False by (auto simp: map_option_Suc_not_zero)
    next
      case after
      have len: "Suc (i - ?n) < length ([s] @ rest)"
        using after Cons.prems(2) by simp
      have ih: "(line_of (group_spans thr rest [s] []) (i - ?n)
                  = line_of (group_spans thr rest [s] []) (Suc (i - ?n)))
            = joins thr ((s # rest) ! (i - ?n)) ((s # rest) ! Suc (i - ?n))"
        using Cons.IH [of "[s]" "i - ?n"] len by simp
      have idx: "Suc i - ?n = Suc (i - ?n)" using after by simp
      have "(line_of (cur # group_spans thr rest [s] []) i
               = line_of (cur # group_spans thr rest [s] []) (Suc i))
            = (line_of (group_spans thr rest [s] []) (i - ?n)
               = line_of (group_spans thr rest [s] []) (Suc (i - ?n)))"
        using after by (auto simp: idx option.map_sel map_option_case split: option.splits)
      moreover have "(cur @ s # rest) ! i = (s # rest) ! (i - ?n)"
        using after by (simp add: nth_append)
      moreover have "(cur @ s # rest) ! Suc i = (s # rest) ! Suc (i - ?n)"
        using after by (simp add: nth_append idx)
      ultimately show ?thesis unfolding step using ih after by simp
    qed
  qed
qed

lemma line_of_Some:
  "i < length (concat gs) \<Longrightarrow> line_of gs i \<noteq> None"
proof (induction gs arbitrary: i)
  case Nil
  then show ?case by simp
next
  case (Cons g gs)
  then show ?case by (cases "i < length g") auto
qed

lemma sort_spans_y_mono:
  assumes "i \<le> j" "j < length (sort_spans spans)"
  shows "s_y (sort_spans spans ! i) \<le> s_y (sort_spans spans ! j)"
proof -
  let ?ss = "sort_spans spans"
  have "sorted (map (\<lambda>s. (s_y s, s_x s)) ?ss)"
    by (simp add: sort_spans_def)
  then have "map (\<lambda>s. (s_y s, s_x s)) ?ss ! i \<le> map (\<lambda>s. (s_y s, s_x s)) ?ss ! j"
    using assms by (intro sorted_nth_mono) simp_all
  then have "(s_y (?ss ! i), s_x (?ss ! i)) \<le> (s_y (?ss ! j), s_x (?ss ! j))"
    using assms by simp
  then show ?thesis by (auto simp: less_eq_prod_def)
qed

lemma page_groups_concat: "concat (page_groups thr spans) = sort_spans spans"
  by (cases "sort_spans spans") (simp_all add: page_groups_def concat_group_spans)

lemma page_groups_adjacent:
  assumes "Suc i < length (sort_spans spans)"
  shows "(line_of (page_groups thr spans) i = line_of (page_groups thr spans) (Suc i))
     = joins thr (sort_spans spans ! i) (sort_spans spans ! Suc i)"
proof (cases "sort_spans spans")
  case Nil
  then show ?thesis using assms by simp
next
  case (Cons s0 rest)
  have "(line_of (group_spans thr rest [s0] []) i = line_of (group_spans thr rest [s0] []) (Suc i))
     = (Suc i < length [s0] \<or> joins thr (([s0] @ rest) ! i) (([s0] @ rest) ! Suc i))"
    using assms Cons by (intro line_of_group_spans_adjacent) simp_all
  then show ?thesis by (simp add: page_groups_def Cons)
qed

lemma page_groups_near:
  assumes "i \<le> j" "j < length (sort_spans spans)" "0 \<le> thr"
    and "\<bar>s_y (sort_spans spans ! j) - s_y (sort_spans spans ! i)\<bar> \<le> thr"
  shows "line_of (page_groups thr spans) i = line_of (page_groups thr spans) j"
  using assms
proof (induction j)
  case 0
  then show ?case by simp
next
  case (Suc j)
  let ?ss = "sort_spans spans"
  show ?case
  proof (cases "i = Suc j")
    case True
    then show ?thesis by simp
  next
    case False
    then have ij: "i \<le> j" using Suc.prems(1) by simp
    have j: "j < length ?ss" using Suc.prems(2) by simp
    have y1: "s_y (?ss ! i) \<le> s_y (?ss ! j)" using ij j by (rule sort_spans_y_mono)
    have y2: "s_y (?ss ! j) \<le> s_y (?ss ! Suc j)"
      using Suc.prems(2) by (intro sort_spans_y_mono) simp_all
    have "line_of (page_groups thr spans) i = line_of (page_groups thr spans) j"
      using ij j Suc.prems(3,4) y1 y2 by (intro Suc.IH) simp_all
    moreover have "joins thr (?ss ! j) (?ss ! Suc j)"
      using Suc.prems(4) y1 y2 by (simp add: joins_def)
    ultimately show ?thesis
      using page_groups_adjacent [OF Suc.prems(2), of thr] by simp
  qed
qed

lemma sample_span_sel:
  "s_y (sample_span y sz) = y" "s_size (sample_span y sz) = sz"
  by (simp_all add: sample_span_def)

lemma sort_sample_spans:
  "a \<le> b \<Longrightarrow> b \<le> c \<Longrightarrow>
   sort_spans [sample_span a p, sample_span b q, sample_span c r]
     = [sample_span a p, sample_span b q, sample_span c r]"
  by (simp add: sort_spans_def sample_span_def less_eq_prod_def)

text \<open>
  C1, as stated, fails: the merger compares a span only with the last span of the open
  line, so spans chain. On a page with three spans of size 10 at \<open>y = 0, 10, 20\<close> the first
  and the last are 20 apart and share a line. With spans at \<open>y = 0, 4, 8\<close> of sizes
  10, 10, 12 the first and the last are 8 apart, differ in size and share a line. With spans
  at \<open>y = 0, 6, 12\<close> of sizes 10, 12, 10 the first and the last are 12 apart, agree in size
  and end in different lines.
\<close>

theorem line_merger_pairwise_counterexample:
  "line_of (page_groups 5 [sample_span 0 10, sample_span 10 10, sample_span 20 10]) 0 = Some 0
   \<and> line_of (page_groups 5 [sample_span 0 10, sample_span 10 10, sample_span 20 10]) 2 = Some 0
   \<and> 15 < \<bar>s_y (sort_spans [sample_span 0 10, sample_span 10 10, sample_span 20 10] ! 2)
           - s_y (sort_spans [sample_span 0 10, sample_span 10 10, sample_span 20 10] ! 0)\<bar>
   \<and> line_of (page_groups 5 [sample_span 0 10, sample_span 4 10, sample_span 8 12]) 0 = Some 0
   \<and> line_of (page_groups 5 [sample_span 0 10, sample_span 4 10, sample_span 8 12]) 2 = Some 0
   \<and> s_size (sort_spans [sample_span 0 10, sample_span 4 10, sample_span 8 12] ! 2)
       \<noteq> s_size (sort_spans [sample_span 0 10, sample_span 4 10, sample_span 8 12] ! 0)
   \<and> line_of (page_groups 5 [sample_span 0 10, sample_span 6 12, sample_span 12 10]) 0 = Some 0
   \<and> line_of (page_groups 5 [sample_span 0 10, sample_span 6 12, sample_span 12 10]) 2 = Some 2
   \<and> s_size (sort_spans [sample_span 0 10, sample_span 6 12, sample_span 12 10] ! 2)
       = s_size (sort_spans [sample_span 0 10, sample_span 6 12, sample_span 12 10] ! 0)"
  by (simp add: page_groups_def sort_sample_spans joins_def sample_span_sel)

text \<open>
  C1, amended. The groups of a page are its spans in sorted order, cut into consecutive
  runs. Two spans that are neighbours in the sorted order share a line exactly when their
  y-distance is at most 5, or at most 15 with equal sizes. Any two spans of the page whose
  y-distance is at most 5 share a line, whatever their sizes. Spans further apart share a
  line when a chain of neighbours joins them.
\<close>

theorem line_merger_adjacent_rule:
  "concat (page_groups 5 spans) = sort_spans spans
   \<and> (\<forall>i. Suc i < length (sort_spans spans) \<longrightarrow>
        (line_of (page_groups 5 spans) i = line_of (page_groups 5 spans) (Suc i))
        = (\<bar>s_y (sort_spans spans ! Suc i) - s_y (sort_spans spans ! i)\<bar> \<le> 5
           \<or> (\<bar>s_y (sort_spans spans ! Suc i) - s_y (sort_spans spans ! i)\<bar> \<le> 15
               \<and> s_size (sort_spans spans ! Suc i) = s_size (sort_spans spans ! i))))
   \<and> (\<forall>i j. i < length (sort_spans spans) \<longrightarrow> j < length (sort_spans spans) \<longrightarrow>
        \<bar>s_y (sort_spans spans ! j) - s_y (sort_spans spans ! i)\<bar> \<le> 5 \<longrightarrow>
        line_of (page_groups 5 spans) i = line_of (page_groups 5 spans) j
        \<and> line_of (page_groups 5 spans) i \<noteq> None)"
proof (intro conjI allI impI)
  show "concat (page_groups 5 spans) = sort_spans spans"
    by (rule page_groups_concat)
next
  fix i assume "Suc i < length (sort_spans spans)"
  then show "(line_of (page_groups 5 spans) i = line_of (page_groups 5 spans) (Suc i))
        = (\<bar>s_y (sort_spans spans ! Suc i) - s_y (sort_spans spans ! i)\<bar> \<le> 5
           \<or> (\<bar>s_y (sort_spans spans ! Suc i) - s_y (sort_spans spans ! i)\<bar> \<le> 15
               \<and> s_size (sort_spans spans ! Suc i) = s_size (sort_spans spans ! i)))"
    by (simp add: page_groups_adjacent joins_def Let_def)
next
  fix i j
  assume i: "i < length (sort_spans spans)" and j: "j < length (sort_spans spans)"
    and d: "\<bar>s_y (sort_spans spans ! j) - s_y (sort_spans spans ! i)\<bar> \<le> 5"
  show "line_of (page_groups 5 spans) i = line_of (page_groups 5 spans) j"
  proof (cases "i \<le> j")
    case True
    then show ?thesis using j d by (intro page_groups_near) simp_all
  next
    case False
    then have "j \<le> i" by simp
    moreover have "\<bar>s_y (sort_spans spans ! i) - s_y (sort_spans spans ! j)\<bar> \<le> 5"
      using d by (simp add: abs_minus_commute)
    ultimately have "line_of (page_groups 5 spans) j = line_of (page_groups 5 spans) i"
      using i by (intro page_groups_near) simp_all
    then show ?thesis by simp
  qed
  show "line_of (page_groups 5 spans) i \<noteq> None"
    using i by (intro line_of_Some) (simp add: page_groups_concat)
qed

theorem line_merger_adjacent_rule_witness:
  "line_of (page_groups 5 [sample_span 0 10, sample_span 8 10, sample_span 30 10]) 0
     = line_of (page_groups 5 [sample_span 0 10, sample_span 8 10, sample_span 30 10]) 1
   \<and> line_of (page_groups 5 [sample_span 0 10, sample_span 8 10, sample_span 30 10]) 1
     \<noteq> line_of (page_groups 5 [sample_span 0 10, sample_span 8 10, sample_span 30 10]) 2
   \<and> line_of (page_groups 5 [sample_span 0 10, sample_span 3 12, sample_span 30 10]) 0
     = line_of (page_groups 5 [sample_span 0 10, sample_span 3 12, sample_span 30 10]) 1"
proof -
  let ?P = "[sample_span 0 10, sample_span 8 10, sample_span 30 10]"
  let ?Q = "[sample_span 0 10, sample_span 3 12, sample_span 30 10]"
  have sP: "sort_spans ?P = ?P" and sQ: "sort_spans ?Q = ?Q"
    by (simp_all add: sort_sample_spans)
  note r = line_merger_adjacent_rule [of ?P, unfolded sP]
  note q = line_merger_adjacent_rule [of ?Q, unfolded sQ]
  have a: "line_of (page_groups 5 ?P) 0 = line_of (page_groups 5 ?P) (Suc 0)"
    using r [THEN conjunct2, THEN conjunct1, rule_format, of 0]
    by (simp add: sample_span_sel)
  have b: "line_of (page_groups 5 ?P) (Suc 0) \<noteq> line_of (page_groups 5 ?P) (Suc (Suc 0))"
    using r [THEN conjunct2, THEN conjunct1, rule_format, of "Suc 0"]
    by (simp add: sample_span_sel)
  have c: "line_of (page_groups 5 ?Q) 0 = line_of (page_groups 5 ?Q) (Suc 0)"
    using q [THEN conjunct2, THEN conjunct2, rule_format, of 0 "Suc 0"]
    by (simp add: sample_span_sel)
  show ?thesis using a b c by (simp add: numeral_2_eq_2)
qed

section \<open>Properties of the pipeline and the scenarios\<close>

text \<open>
  C5. When the extraction yields no line, the result is the object with title
  \<open>Empty Document\<close> and an empty outline, and carries neither \<open>error\<close> nor \<open>file\<close>.
\<close>

theorem empty_document_result:
  "extract_text_with_metadata src 5 = Inr [] \<Longrightarrow>
   extract_outline_robust pdf_path src =
     \<lparr> res_title = ustr ''Empty Document'', res_outline = [],
       res_error = None, res_file = None \<rparr>"
  by (simp add: extract_outline_robust_def)

theorem empty_document_result_witness:
  "extract_text_with_metadata blank_document 5 = Inr []
   \<and> extract_outline_robust (ustr ''blank.pdf'') blank_document =
     \<lparr> res_title = ustr ''Empty Document'', res_outline = [],
       res_error = None, res_file = None \<rparr>"
proof -
  have h: "extract_text_with_metadata blank_document 5 = Inr []"
    by code_simp
  show ?thesis
    using h empty_document_result [OF h, where pdf_path = "ustr ''blank.pdf''"] by simp
qed



text \<open>
  C7, as stated, fails: every text of the outline has passed the cleaner, which ends it with
  a space, so the outline does not hold the texts \<open>1. Introduction\<close> and \<open>1.1 Background\<close>.
\<close>

theorem general_scenario_counterexample:
  "extract_general_main_headings c7_lines \<noteq>
     Some [\<lparr> h_level = H1, h_text = ustr ''1. Introduction'', h_page = 0 \<rparr>,
           \<lparr> h_level = H2, h_text = ustr ''1.1 Background'', h_page = 0 \<rparr>]"
  by code_simp

text \<open>
  C7, amended. For the three lines of the scenario the general extractor yields H1
  \<open>1. Introduction\<close> and H2 \<open>1.1 Background\<close>, both on page 0 and both with the cleaner's
  trailing space; the body text is left out. The document is of the general genre, and the
  whole heading stage yields this outline. The extractor computes its thresholds from the
  lines (here those of the mean-ratio path); under the thresholds H1 = 18 and H2 = 14 the
  three lines classify as H1, no heading and H2 as well.
\<close>

theorem general_scenario_outline:
  "extract_general_main_headings c7_lines =
     Some [\<lparr> h_level = H1, h_text = ustr ''1. Introduction '', h_page = 0 \<rparr>,
           \<lparr> h_level = H2, h_text = ustr ''1.1 Background '', h_page = 0 \<rparr>]
   \<and> a_document_type (analyze_document_structure c7_lines) = Some General
   \<and> snd (extract_main_headings_only c7_lines (analyze_document_structure c7_lines)) =
       [\<lparr> h_level = H1, h_text = ustr ''1. Introduction '', h_page = 0 \<rparr>,
        \<lparr> h_level = H2, h_text = ustr ''1.1 Background '', h_page = 0 \<rparr>]
   \<and> calculate_font_thresholds c7_lines =
       Some [(H1, 559 / 30), (H2, 989 / 60), (H3, 301 / 20), (H4, 43 / 3)]
   \<and> map (\<lambda>line. classify_general_main_heading (strip (the (l_text line))) line
                [(H1, 18), (H2, 14)]) c7_lines
       = [Some (Some H1), Some None, Some (Some H2)]"
  by code_simp

text \<open>
  C10. The one-page document with the lines \<open>1. Overview\<close> and \<open>1. Overview 7\<close> has an outline
  of two entries with the same text: the two texts differ before cleaning, so both pass the
  test against \<open>seen\<close>, and the cleaner strips the trailing number of the second.
\<close>

theorem duplicate_cleaned_text:
  "map l_text (projr (extract_text_with_metadata c10_document 5))
     = [Some (ustr ''1. Overview''), Some (ustr ''1. Overview 7'')]
   \<and> res_outline (extract_outline_robust (ustr ''a.pdf'') c10_document) =
       [\<lparr> h_level = H1, h_text = ustr ''1. Overview '', h_page = 0 \<rparr>,
        \<lparr> h_level = H1, h_text = ustr ''1. Overview '', h_page = 0 \<rparr>]"
  by code_simp

section \<open>Properties of the font thresholds\<close>


















section \<open>The boilerplate filter of the title extractors\<close>

lemma title_candidates_not_metadata:
  "title_candidates a i ls = Some cs \<Longrightarrow> c \<in> set cs \<Longrightarrow> \<not> is_universal_metadata (fst c)"
proof (induction ls arbitrary: i cs)
  case Nil
  then show ?case by simp
next
  case (Cons line rest)
  then show ?case
    by (auto simp: Let_def split: bind_splits if_splits)
qed

lemma academic_candidates_not_metadata:
  "academic_candidates a i ls = Some cs \<Longrightarrow> c \<in> set cs \<Longrightarrow> \<not> is_universal_metadata (fst c)"
proof (induction ls arbitrary: i cs)
  case Nil
  then show ?case by simp
next
  case (Cons line rest)
  then show ?case
    by (auto simp: Let_def split: bind_splits if_splits)
qed

lemma file3_title_parts_marked:
  "file3_title_parts ls = Some parts \<Longrightarrow> p \<in> set parts \<Longrightarrow> has_file3_marker p"
proof (induction ls arbitrary: parts)
  case Nil
  then show ?case by simp
next
  case (Cons line rest)
  then show ?case
    by (auto simp: Let_def split: bind_splits if_splits)
qed

lemma academic_fallback_skips:
  assumes "\<not> ((contains (ustr ''overview'') (lower t) \<or> contains (ustr ''foundation'') (lower t))
              \<and> 10 < length t)"
  shows "academic_fallback (filter (\<lambda>l. map_option strip (l_text l) \<noteq> Some t) ls)
           = academic_fallback ls"
proof (induction ls)
  case Nil
  show ?case by simp
next
  case (Cons line rest)
  show ?case
  proof (cases "l_text line")
    case None
    then show ?thesis by simp
  next
    case (Some raw)
    then show ?thesis using Cons assms by (auto simp: Let_def)
  qed
qed

lemma boilerplate_texts:
  "is_universal_metadata (ustr ''Page 3'')"
  "is_universal_metadata (ustr ''Draft v1.2'')"
  "is_universal_metadata (ustr ''2024'')"
  "\<not> has_file3_marker (ustr ''Page 3'')"
  "\<not> has_file3_marker (ustr ''Draft v1.2'')"
  "\<not> has_file3_marker (ustr ''2024'')"
  by code_simp+

lemma boilerplate_short:
  "length (ustr ''Page 3'') \<le> 10" "length (ustr ''Draft v1.2'') \<le> 10" "length (ustr ''2024'') \<le> 10"
  by (simp_all add: ustr_def)

lemma best_candidate_mem:
  "cs \<noteq> [] \<Longrightarrow> best_candidate cs \<in> fst ` set cs"
proof -
  assume "cs \<noteq> []"
  let ?s = "sort_key (\<lambda>(t, score, i). (- score, i)) cs"
  have "?s \<noteq> []" using \<open>cs \<noteq> []\<close> by (metis length_0_conv length_sort)
  then have "hd ?s \<in> set ?s" by (rule hd_in_set)
  then have "hd ?s \<in> set cs" by simp
  then show ?thesis unfolding best_candidate_def by (rule imageI)
qed

text \<open>
  C8. The boilerplate filter accepts \<open>Page 3\<close>, \<open>Draft v1.2\<close> and \<open>2024\<close>. In the
  generic and in the academic title extractor no candidate, and so not the best one, has a
  text the filter accepts. The extractor of the rfp_file3 genre has no such filter and takes
  the lines that hold one of its marker phrases: none of the three texts is among them.
  The fallback scan of the academic extractor passes over a line with one of the three
  texts, so its result is the same without these lines.
\<close>

theorem boilerplate_never_candidate:
  "is_universal_metadata (ustr ''Page 3'') \<and> is_universal_metadata (ustr ''Draft v1.2'')
   \<and> is_universal_metadata (ustr ''2024'')
   \<and> (\<forall>cs. title_candidates a i ls = Some cs \<longrightarrow>
         (\<forall>c \<in> set cs. \<not> is_universal_metadata (fst c))
         \<and> (cs \<noteq> [] \<longrightarrow> \<not> is_universal_metadata (best_candidate cs)))
   \<and> (\<forall>cs. academic_candidates a i ls = Some cs \<longrightarrow>
         (\<forall>c \<in> set cs. \<not> is_universal_metadata (fst c))
         \<and> (cs \<noteq> [] \<longrightarrow> \<not> is_universal_metadata (best_candidate cs)))
   \<and> (\<forall>t \<in> {ustr ''Page 3'', ustr ''Draft v1.2'', ustr ''2024''}.
         (\<forall>parts. file3_title_parts ls = Some parts \<longrightarrow> t \<notin> set parts)
         \<and> academic_fallback (filter (\<lambda>l. map_option strip (l_text l) \<noteq> Some t) ls)
             = academic_fallback ls)"
proof -
  have best: "\<not> is_universal_metadata (best_candidate cs)"
    if "\<forall>c \<in> set cs. \<not> is_universal_metadata (fst c)" "cs \<noteq> []"
    for cs :: "(ustring \<times> int \<times> nat) list"
    using best_candidate_mem [OF that(2)] that(1) by auto
  have generic: "\<forall>c \<in> set cs. \<not> is_universal_metadata (fst c)"
    if "title_candidates a i ls = Some cs" for cs
    using title_candidates_not_metadata [OF that] by blast
  have academic: "\<forall>c \<in> set cs. \<not> is_universal_metadata (fst c)"
    if "academic_candidates a i ls = Some cs" for cs
    using academic_candidates_not_metadata [OF that] by blast
  have parts: "t \<notin> set parts"
    if "t \<in> {ustr ''Page 3'', ustr ''Draft v1.2'', ustr ''2024''}"
      "file3_title_parts ls = Some parts" for t parts
    using file3_title_parts_marked [OF that(2), of t] that(1) boilerplate_texts(4-6) by auto
  have fallback: "academic_fallback (filter (\<lambda>l. map_option strip (l_text l) \<noteq> Some t) ls)
             = academic_fallback ls"
    if "t \<in> {ustr ''Page 3'', ustr ''Draft v1.2'', ustr ''2024''}" for t
    using that boilerplate_short by (intro academic_fallback_skips) auto
  show ?thesis
    using boilerplate_texts(1-3) best generic academic parts fallback by blast
qed

theorem boilerplate_never_candidate_witness:
  "title_candidates empty_analysis 0 c8_lines = Some [(ustr ''Hello World'', 0, 1)]
   \<and> \<not> is_universal_metadata (ustr ''Hello World'')
   \<and> is_universal_metadata (ustr ''Page 3'')
   \<and> extract_multilingual_title c8_lines empty_analysis General = ustr ''Hello World ''"
proof -
  have c: "title_candidates empty_analysis 0 c8_lines = Some [(ustr ''Hello World'', 0, 1)]"
    by code_simp
  have t: "extract_multilingual_title c8_lines empty_analysis General = ustr ''Hello World ''"
    by code_simp
  have "\<not> is_universal_metadata (fst (ustr ''Hello World'', 0 :: int, 1 :: nat))"
    using boilerplate_never_candidate [of empty_analysis 0 c8_lines] c by simp
  then show ?thesis
    using c t boilerplate_never_candidate [of empty_analysis 0 c8_lines] by simp
qed

section \<open>The outline of every genre\<close>

lemma those_eq_Some: "those xs = Some ys \<longleftrightarrow> xs = map Some ys"
proof (induction xs arbitrary: ys)
  case Nil
  show ?case by auto
next
  case (Cons x xs)
  show ?case
    by (cases x; cases ys) (auto simp: Cons.IH split: option.splits)
qed

lemma group_spans_nonempty:
  "cur \<noteq> [] \<Longrightarrow> [] \<notin> set (group_spans thr rest cur [])"
proof (induction rest arbitrary: cur)
  case Nil
  then show ?case by simp
next
  case (Cons s rest)
  then show ?case
    by (auto simp add: group_spans_step simp del: group_spans.simps)
qed

lemma page_groups_nonempty: "[] \<notin> set (page_groups thr spans)"
  by (cases "sort_spans spans") (simp_all add: page_groups_def group_spans_nonempty)

lemma page_groups_members:
  assumes "g \<in> set (page_groups thr spans)"
  shows "g \<noteq> []" and "set g \<subseteq> set spans"
proof -
  show "g \<noteq> []" using assms page_groups_nonempty by metis
  have "set g \<subseteq> set (concat (page_groups thr spans))" using assms by auto
  then show "set g \<subseteq> set spans"
    by (simp add: page_groups_concat sort_spans_def)
qed

lemma merge_line_spans_fields:
  assumes "g \<noteq> []"
  shows "\<exists>l. merge_line_spans g = Some l \<and> l_page l = Some (s_page (hd g)) \<and> l_text l \<noteq> None"
  using assms by (cases g) (simp_all add: Let_def)

lemma page_spans_page: "s \<in> set (page_spans n pg) \<Longrightarrow> s_page s = int n + 1"
  by (auto simp: page_spans_def mk_span_def split: prod.splits)

lemma map_Some_the:
  "\<forall>x \<in> set xs. f x \<noteq> None \<Longrightarrow> map f xs = map Some (map (the \<circ> f) xs)"
  by (induction xs) auto

lemma page_lines_total: "\<exists>ls. page_lines thr n pg = Some ls"
proof -
  have "merge_line_spans g \<noteq> None" if "g \<in> set (page_groups thr (page_spans n pg))" for g
  proof -
    have "g \<noteq> []" using that by (rule page_groups_members(1))
    then show ?thesis using merge_line_spans_fields [of g] by auto
  qed
  then have "map merge_line_spans (page_groups thr (page_spans n pg))
      = map Some (map (the \<circ> merge_line_spans) (page_groups thr (page_spans n pg)))"
    by (intro map_Some_the) simp
  then show ?thesis
    unfolding page_lines_def those_eq_Some by (rule exI)
qed

lemma page_lines_fields:
  assumes "page_lines thr n pg = Some ls" "l \<in> set ls"
  shows "l_page l = Some (int n + 1)" and "l_text l \<noteq> None"
proof -
  let ?gs = "page_groups thr (page_spans n pg)"
  have "map merge_line_spans ?gs = map Some ls"
    using assms(1) by (simp add: page_lines_def those_eq_Some)
  then have "Some l \<in> set (map merge_line_spans ?gs)"
    using assms(2) by simp
  then obtain g where g: "g \<in> set ?gs" "merge_line_spans g = Some l" by auto
  have ne: "g \<noteq> []" and sub: "set g \<subseteq> set (page_spans n pg)"
    using page_groups_members [OF g(1)] by simp_all
  have "hd g \<in> set (page_spans n pg)" using ne sub by auto
  then have "s_page (hd g) = int n + 1" by (rule page_spans_page)
  then show "l_page l = Some (int n + 1)" and "l_text l \<noteq> None"
    using merge_line_spans_fields [OF ne] g(2) by auto
qed

lemma document_lines_pages:
  assumes "those (map (\<lambda>(n, pg). page_lines thr n pg) (enumerate k pages)) = Some lss"
  shows "\<exists>ps. map l_page (concat lss) = map Some ps \<and> sorted ps \<and> (\<forall>p \<in> set ps. int k + 1 \<le> p)"
  using assms
proof (induction pages arbitrary: k lss)
  case Nil
  then show ?case by simp
next
  case (Cons pg pages)
  from Cons.prems obtain ls lss' where lss: "lss = ls # lss'"
    and ls: "page_lines thr k pg = Some ls"
    and rest: "those (map (\<lambda>(n, pg). page_lines thr n pg) (enumerate (Suc k) pages)) = Some lss'"
    by (auto split: option.splits)
  from Cons.IH [OF rest] obtain ps where ps: "map l_page (concat lss') = map Some ps"
    "sorted ps" "\<forall>p \<in> set ps. int (Suc k) + 1 \<le> p" by blast
  have "map l_page ls = map (\<lambda>_. Some (int k + 1)) ls"
    using page_lines_fields(1) [OF ls] by simp
  then have here: "map l_page ls = map Some (replicate (length ls) (int k + 1))"
    by (simp add: map_replicate_const)
  let ?ps = "replicate (length ls) (int k + 1) @ ps"
  have "map l_page (concat lss) = map Some ?ps"
    using here ps(1) lss by simp
  moreover have "sorted ?ps"
    using ps(2,3) by (auto simp: sorted_append)
  moreover have "\<forall>p \<in> set ?ps. int k + 1 \<le> p"
    using ps(3) by auto
  ultimately show ?case by blast
qed

lemma extracted_lines_pages:
  assumes "extract_text_with_metadata src thr = Inr lines"
  shows "\<exists>ps. map l_page lines = map Some ps \<and> sorted ps"
proof (cases src)
  case (Unreadable e)
  then show ?thesis using assms by (simp add: extract_text_with_metadata_def)
next
  case (Document pages)
  then obtain lss where "those (map (\<lambda>(n, pg). page_lines thr n pg) (enumerate 0 pages)) = Some lss"
    and "lines = concat lss"
    using assms by (auto simp: extract_text_with_metadata_def split: option.splits)
  then show ?thesis using document_lines_pages [of thr 0 pages lss] by blast
qed

lemma extract_document_total:
  "\<exists>lines. extract_text_with_metadata (Document pages) thr = Inr lines"
proof -
  let ?f = "\<lambda>(n, pg). page_lines thr n pg"
  have "page_lines thr n pg \<noteq> None" for n pg
    using page_lines_total [of thr n pg] by auto
  then have "\<forall>x \<in> set (enumerate 0 pages). ?f x \<noteq> None"
    by (simp split: prod.splits)
  then have "map ?f (enumerate 0 pages) = map Some (map (the \<circ> ?f) (enumerate 0 pages))"
    by (rule map_Some_the)
  then have "those (map ?f (enumerate 0 pages)) = Some (map (the \<circ> ?f) (enumerate 0 pages))"
    unfolding those_eq_Some .
  then show ?thesis by (simp add: extract_text_with_metadata_def)
qed

lemma heading_loop_trace:
  "heading_loop m cl ls seen hs = Some out \<Longrightarrow>
   \<exists>sel new. out = hs @ new \<and> subseq sel ls \<and> list_all2 heading_of_line sel new
     \<and> distinct (map pre_clean sel) \<and> (\<forall>l \<in> set sel. \<forall>t \<in> set seen. pre_clean l \<noteq> Some t)"
proof (induction ls arbitrary: seen hs out)
  case Nil
  then show ?case by simp
next
  case (Cons line rest)
  from Cons.prems obtain raw where raw: "l_text line = Some raw"
    by (cases "l_text line") simp_all
  let ?t = "strip raw"
  have pc: "pre_clean line = Some ?t" by (simp add: pre_clean_def raw)
  show ?case
  proof (cases "?t \<in> set seen \<or> length ?t < m \<or> cl ?t line = Some None")
    case True
    then have "heading_loop m cl rest seen hs = Some out"
      using Cons.prems raw by (auto simp: Let_def split: if_splits)
    from Cons.IH [OF this] obtain sel new where
      "out = hs @ new" "subseq sel rest" "list_all2 heading_of_line sel new"
      "distinct (map pre_clean sel)" "\<forall>l \<in> set sel. \<forall>t \<in> set seen. pre_clean l \<noteq> Some t"
      by blast
    then show ?thesis by (intro exI [of _ sel] exI [of _ new]) (simp add: list_emb_Cons)
  next
    case False
    then obtain lv p where lv: "cl ?t line = Some (Some lv)" and p: "l_page line = Some p"
      and rec: "heading_loop m cl rest (?t # seen)
        (hs @ [\<lparr> h_level = lv, h_text = clean_heading_text ?t, h_page = p - 1 \<rparr>]) = Some out"
      using Cons.prems raw by (auto simp: Let_def split: bind_splits option.splits)
    let ?h = "\<lparr> h_level = lv, h_text = clean_heading_text ?t, h_page = p - 1 \<rparr>"
    from Cons.IH [OF rec] obtain sel new where tr:
      "out = (hs @ [?h]) @ new" "subseq sel rest" "list_all2 heading_of_line sel new"
      "distinct (map pre_clean sel)"
      "\<forall>l \<in> set sel. \<forall>t \<in> set (?t # seen). pre_clean l \<noteq> Some t"
      by blast
    have "heading_of_line line ?h"
      by (simp add: heading_of_line_def raw p)
    moreover have "pre_clean line \<notin> set (map pre_clean sel)"
      using tr(5) pc by auto
    moreover have "\<forall>t \<in> set seen. pre_clean line \<noteq> Some t"
      using False pc by auto
    ultimately show ?thesis
      using tr by (intro exI [of _ "line # sel"] exI [of _ "?h # new"]) simp
  qed
qed

lemma pick_loop_trace:
  "pick_loop wanted ls seen hs = Some out \<Longrightarrow>
   \<exists>sel new. out = hs @ new \<and> subseq sel ls \<and> list_all2 heading_of_line sel new
     \<and> distinct (map pre_clean sel) \<and> (\<forall>l \<in> set sel. \<forall>t \<in> set seen. pre_clean l \<noteq> Some t)"
proof (induction ls arbitrary: seen hs out)
  case Nil
  then show ?case by simp
next
  case (Cons line rest)
  from Cons.prems obtain raw where raw: "l_text line = Some raw"
    by (cases "l_text line") simp_all
  let ?t = "strip raw"
  have pc: "pre_clean line = Some ?t" by (simp add: pre_clean_def raw)
  show ?case
  proof (cases "wanted ?t \<and> ?t \<notin> set seen")
    case False
    then have "pick_loop wanted rest seen hs = Some out"
      using Cons.prems raw by (auto simp: Let_def split: if_splits)
    from Cons.IH [OF this] obtain sel new where
      "out = hs @ new" "subseq sel rest" "list_all2 heading_of_line sel new"
      "distinct (map pre_clean sel)" "\<forall>l \<in> set sel. \<forall>t \<in> set seen. pre_clean l \<noteq> Some t"
      by blast
    then show ?thesis by (intro exI [of _ sel] exI [of _ new]) (simp add: list_emb_Cons)
  next
    case True
    then obtain p where p: "l_page line = Some p"
      and rec: "pick_loop wanted rest (?t # seen)
        (hs @ [\<lparr> h_level = H1, h_text = clean_heading_text ?t, h_page = p - 1 \<rparr>]) = Some out"
      using Cons.prems raw by (auto simp: Let_def split: bind_splits)
    let ?h = "\<lparr> h_level = H1, h_text = clean_heading_text ?t, h_page = p - 1 \<rparr>"
    from Cons.IH [OF rec] obtain sel new where tr:
      "out = (hs @ [?h]) @ new" "subseq sel rest" "list_all2 heading_of_line sel new"
      "distinct (map pre_clean sel)"
      "\<forall>l \<in> set sel. \<forall>t \<in> set (?t # seen). pre_clean l \<noteq> Some t"
      by blast
    have "heading_of_line line ?h"
      by (simp add: heading_of_line_def raw p)
    moreover have "pre_clean line \<notin> set (map pre_clean sel)"
      using tr(5) pc by auto
    moreover have "\<forall>t \<in> set seen. pre_clean line \<noteq> Some t"
      using True pc by auto
    ultimately show ?thesis
      using tr by (intro exI [of _ "line # sel"] exI [of _ "?h # new"]) simp
  qed
qed

lemma traced_pages_sorted:
  assumes "subseq sel lines" "list_all2 heading_of_line sel hs"
    and "map l_page lines = map Some ps" "sorted ps"
  shows "sorted (map h_page hs)"
proof -
  have "subseq (map l_page sel) (map Some ps)"
    using subseq_map [OF assms(1), of l_page] assms(3) by simp
  then obtain N where "map l_page sel = nths (map Some ps) N"
    unfolding subseq_conv_nths by blast
  then have sel_pages: "map l_page sel = map Some (nths ps N)"
    by (simp add: nths_map)
  have "map h_page hs = map (\<lambda>l. the (l_page l) - 1) sel"
    using assms(2) by (induction sel hs rule: list_all2_induct) (auto simp: heading_of_line_def)
  also have "\<dots> = map (\<lambda>q. the q - 1) (map l_page sel)" by simp
  also have "\<dots> = map (\<lambda>p. p - 1) (nths ps N)" by (simp add: sel_pages)
  finally have eq: "map h_page hs = map (\<lambda>p. p - 1) (nths ps N)" .
  have "sorted (nths ps N)" using assms(4) by (rule sorted_nths)
  then have "sorted (map (\<lambda>p. p - 1) (nths ps N))"
    by (simp add: sorted_map sorted_wrt_mono_rel [of _ "(\<le>)"])
  then show ?thesis by (simp add: eq)
qed

lemma traced_take:
  assumes "subseq sel lines" "list_all2 heading_of_line sel hs" "distinct (map pre_clean sel)"
  shows "subseq (take n sel) lines \<and> list_all2 heading_of_line (take n sel) (take n hs)
     \<and> distinct (map pre_clean (take n sel))"
proof -
  have "subseq (take n sel) sel" by (simp add: prefix_imp_subseq take_is_prefix)
  then have "subseq (take n sel) lines" using assms(1) by (rule subseq_order.trans)
  moreover have "list_all2 heading_of_line (take n sel) (take n hs)"
    using assms(2) by (rule list_all2_takeI)
  moreover have "distinct (map pre_clean (take n sel))"
    using assms(3) by (simp add: take_map [symmetric] distinct_take)
  ultimately show ?thesis by simp
qed

lemma sorted_capped_trace:
  assumes "heading_loop m cl lines [] [] = Some found"
    and "map l_page lines = map Some ps" "sorted ps"
  shows "sorted (map h_page (take n (sort_key h_page found)))
     \<and> (\<exists>sel. subseq sel lines
           \<and> list_all2 heading_of_line sel (take n (sort_key h_page found))
           \<and> distinct (map pre_clean sel))"
proof -
  from heading_loop_trace [OF assms(1)] obtain sel where sel:
    "subseq sel lines" "list_all2 heading_of_line sel found" "distinct (map pre_clean sel)"
    by auto
  have "sorted (map h_page found)"
    using sel(1,2) assms(2,3) by (rule traced_pages_sorted)
  then have same: "sort_key h_page found = found"
    by (rule sort_key_id_if_sorted)
  have "sorted (map h_page (take n found))"
    using \<open>sorted (map h_page found)\<close> by (simp add: take_map [symmetric] sorted_wrt_take)
  then show ?thesis
    using traced_take [OF sel, of n] unfolding same by blast
qed

lemma picked_trace:
  assumes "pick_loop wanted lines [] [] = Some found"
    and "map l_page lines = map Some ps" "sorted ps"
  shows "sorted (map h_page (take n found))
     \<and> (\<exists>sel. subseq sel lines \<and> list_all2 heading_of_line sel (take n found)
           \<and> distinct (map pre_clean sel))"
proof -
  from pick_loop_trace [OF assms(1)] obtain sel where sel:
    "subseq sel lines" "list_all2 heading_of_line sel found" "distinct (map pre_clean sel)"
    by auto
  have "sorted (map h_page found)"
    using sel(1,2) assms(2,3) by (rule traced_pages_sorted)
  then have "sorted (map h_page (take n found))"
    by (simp add: take_map [symmetric] sorted_wrt_take)
  then show ?thesis
    using traced_take [OF sel, of n] by blast
qed

lemma headings_body_trace:
  assumes "headings_body lines dt = Some hs"
    and "map l_page lines = map Some ps" "sorted ps"
  shows "sorted (map h_page hs)
     \<and> (\<exists>sel. subseq sel lines \<and> list_all2 heading_of_line sel hs \<and> distinct (map pre_clean sel))"
proof (cases dt)
  case Form
  then have "hs = []" using assms(1) by (simp add: headings_body_def)
  then show ?thesis by (auto intro: exI [of _ "[]"])
next
  case Invitation
  then obtain found where "pick_loop (\<lambda>t. lower t \<in> set (map ustr [''pathway options'', ''hope to see you there''])
        \<or> (isupper t \<and> 10 \<le> length t \<and> length t \<le> 50)) lines [] [] = Some found"
    and "hs = take 2 found"
    using assms(1)
    by (auto simp: headings_body_def extract_invitation_headings_def split: bind_splits)
  then show ?thesis using picked_trace [OF _ assms(2,3), of _ found 2] by simp
next
  case Pathway
  then obtain found where "pick_loop (\<lambda>t. any_keyword [''pathway options'', ''regular pathway'',
        ''distinction pathway''] (lower t)) lines [] [] = Some found"
    and "hs = take (length found) found"
    using assms(1)
    by (auto simp: headings_body_def extract_pathway_headings_def)
  then show ?thesis using picked_trace [OF _ assms(2,3), of _ found "length found"] by simp
next
  case Academic
  then obtain fa found where
    "heading_loop 5 (\<lambda>t line. classify_academic_main_heading t line fa) lines [] [] = Some found"
    and "hs = take 18 (sort_key h_page found)"
    using assms(1)
    by (auto simp: headings_body_def extract_academic_main_headings_def split: bind_splits)
  then show ?thesis using sorted_capped_trace [OF _ assms(2,3), of 5 _ found 18] by simp
next
  case Rfp
  then obtain fa found where
    "heading_loop 5 (\<lambda>t line. classify_rfp_main_heading t line fa) lines [] [] = Some found"
    and "hs = take 35 (sort_key h_page found)"
    using assms(1)
    by (auto simp: headings_body_def extract_rfp_main_headings_def split: bind_splits)
  then show ?thesis using sorted_capped_trace [OF _ assms(2,3), of 5 _ found 35] by simp
next
  case General
  then obtain fa found where
    "heading_loop 5 (\<lambda>t line. classify_general_main_heading t line fa) lines [] [] = Some found"
    and "hs = take 25 (sort_key h_page found)"
    using assms(1)
    by (auto simp: headings_body_def extract_general_main_headings_def split: bind_splits)
  then show ?thesis using sorted_capped_trace [OF _ assms(2,3), of 5 _ found 25] by simp
next
  case RfpFile3
  then obtain fa found where
    "heading_loop 3 (\<lambda>t line. classify_file3_heading t line fa) lines [] [] = Some found"
    and "hs = take (length found) (sort_key h_page found)"
    using assms(1)
    by (auto simp: headings_body_def extract_file3_specific_headings_def split: bind_splits)
  then show ?thesis
    using sorted_capped_trace [OF _ assms(2,3), of 3 _ found "length found"] by simp
qed

text \<open>
  C3. For every document and every analysis (so for every genre), the outline that the
  heading stage returns for the extracted lines is sorted by page, and its entries come,
  one to one and in the order of the lines, from lines whose texts before cleaning differ
  pairwise. The extracted lines are in page order, so the stable sort keeps the order of
  insertion; the invitation and pathway extractors do not sort, and need not.
\<close>

theorem heading_outline_sorted_distinct:
  assumes "extract_text_with_metadata src y_threshold = Inr lines"
  shows "sorted (map h_page (snd (extract_main_headings_only lines a)))
     \<and> (\<exists>sel. subseq sel lines
           \<and> list_all2 heading_of_line sel (snd (extract_main_headings_only lines a))
           \<and> distinct (map pre_clean sel))"
proof -
  from extracted_lines_pages [OF assms] obtain ps where
    ps: "map l_page lines = map Some ps" "sorted ps" by blast
  let ?dt = "case a_document_type a of None \<Rightarrow> General | Some d \<Rightarrow> d"
  show ?thesis
  proof (cases "headings_body lines ?dt")
    case None
    then have "snd (extract_main_headings_only lines a) = []"
      by (simp add: extract_main_headings_only_def Let_def)
    then show ?thesis by (auto intro: exI [of _ "[]"])
  next
    case (Some hs)
    then have "snd (extract_main_headings_only lines a) = hs"
      by (simp add: extract_main_headings_only_def Let_def)
    then show ?thesis using headings_body_trace [OF Some ps] by simp
  qed
qed

theorem heading_outline_sorted_distinct_witness:
  "length (snd (extract_main_headings_only
        (projr (extract_text_with_metadata c10_document 5)) empty_analysis)) = 2
   \<and> sorted (map h_page (snd (extract_main_headings_only
        (projr (extract_text_with_metadata c10_document 5)) empty_analysis)))
   \<and> (\<exists>sel. subseq sel (projr (extract_text_with_metadata c10_document 5))
        \<and> list_all2 heading_of_line sel (snd (extract_main_headings_only
             (projr (extract_text_with_metadata c10_document 5)) empty_analysis))
        \<and> distinct (map pre_clean sel))"
proof -
  obtain lines where h: "extract_text_with_metadata c10_document 5 = Inr lines"
    using extract_document_total unfolding c10_document_def by blast
  have n: "length (snd (extract_main_headings_only
        (projr (extract_text_with_metadata c10_document 5)) empty_analysis)) = 2"
    by code_simp
  show ?thesis
    using heading_outline_sorted_distinct [OF h, of empty_analysis] n by (simp add: h)
qed

section \<open>Properties of the text cleaner\<close>

lemma sub_from_skip:
  "sub_from r repl i k t = sub_from r repl (i + k) 0 (drop k t)"
proof (induction k arbitrary: i t)
  case 0
  show ?case by simp
next
  case (Suc k)
  show ?case
  proof (cases t)
    case Nil
    then show ?thesis by simp
  next
    case (Cons c u)
    then show ?thesis using Suc [of "Suc i" u] by simp
  qed
qed



lemma star_greedy_hd:
  "star_greedy p i t \<noteq> []"
  by (induction t arbitrary: i) auto

lemma star_greedy_stop:
  "(t = [] \<or> \<not> p (hd t)) \<Longrightarrow> star_greedy p i t = [(i, t)]"
  by (cases t) auto























section \<open>Failures inside the stages\<close>








end
